theory Spec2Isabelle
  imports Main "HOL-Library.Word"
begin

section \<open>Data model of four.cxx\<close>

text \<open>
  The source mixes two integer types: \<open>size_t\<close> (unsigned, 64 bits) for the grid
  dimensions, the cell colours, the player ids and the column argument, and \<open>int\<close>
  (signed, 32 bits) for the coordinates kept in the history and for every loop cursor.
  Both are modelled as machine words; the conversions between them are written out.
\<close>

type_synonym size_t = "64 word"
type_synonym c_int = "32 word"
type_synonym ColorType = size_t
type_synonym IdType = size_t
type_synonym ErrMsgType = string

definition EMPTY_COLOR :: ColorType where
  "EMPTY_COLOR = 0"

definition line_len :: size_t where
  "line_len = 4"

definition line_offset :: size_t where
  "line_offset = line_len - 1"

definition line_steps :: size_t where
  "line_steps = line_len * 2 - 1"

record GameState =
  grid :: "ColorType list list"
  grid_width :: size_t
  grid_height :: size_t
  history :: "(c_int \<times> c_int \<times> IdType) list"

text \<open>
  What keeps a function from returning is a value of the model: the undefined behaviour of
  an index outside a vector and of an overflowing signed addition, and the exception
  \<open>std::length_error\<close> of a vector constructor that is asked for more elements than a
  vector can have.
\<close>

datatype fault = OutOfBounds | SignedOverflow | LengthError

text \<open>Conversion \<open>int \<rightarrow> size_t\<close> extends the sign; \<open>size_t \<rightarrow> int\<close> keeps the low 32 bits.\<close>

definition to_size_t :: "c_int \<Rightarrow> size_t" where
  "to_size_t i = scast i"

definition to_int :: "size_t \<Rightarrow> c_int" where
  "to_int n = ucast n"

definition INT_MAX :: int where
  "INT_MAX = 2147483647"

definition INT_MIN :: int where
  "INT_MIN = - 2147483648"

definition int_add :: "c_int \<Rightarrow> c_int \<Rightarrow> fault + c_int" where
  "int_add a b =
     (if INT_MIN \<le> sint a + sint b \<and> sint a + sint b \<le> INT_MAX then Inr (a + b)
      else Inl SignedOverflow)"

text \<open>\<open>std::max\<close> and \<open>std::min\<close> on \<open>int\<close>: signed comparison.\<close>

definition int_max :: "c_int \<Rightarrow> c_int \<Rightarrow> c_int" where
  "int_max a b = (if a <s b then b else a)"

definition int_min :: "c_int \<Rightarrow> c_int \<Rightarrow> c_int" where
  "int_min a b = (if b <s a then b else a)"

text \<open>\<open>state.grid[r][c]\<close>: both indices are converted to \<open>size_t\<close> before the access.\<close>

definition cell :: "GameState \<Rightarrow> size_t \<Rightarrow> size_t \<Rightarrow> fault + ColorType" where
  "cell state r c =
     (if unat r < length (grid state) \<and> unat c < length (grid state ! unat r)
      then Inr (grid state ! unat r ! unat c)
      else Inl OutOfBounds)"

definition set_cell :: "GameState \<Rightarrow> size_t \<Rightarrow> size_t \<Rightarrow> ColorType \<Rightarrow> fault + GameState" where
  "set_cell state r c v =
     (if unat r < length (grid state) \<and> unat c < length (grid state ! unat r)
      then Inr (state\<lparr>grid := (grid state)[unat r := (grid state ! unat r)[unat c := v]]\<rparr>)
      else Inl OutOfBounds)"

section \<open>GameState::init_state\<close>

text \<open>
  A row is built by the constructor \<open>vector<ColorType>(width, EMPTY_COLOR)\<close>, which throws
  \<open>std::length_error\<close> when \<open>width\<close> exceeds \<open>max_size()\<close>. With pointers of 64 bits and
  cells of 8 bytes that bound is \<open>PTRDIFF_MAX / sizeof(size_t)\<close>, that is 2^60 - 1 cells.
  Below the bound the memory is taken to suffice: \<open>std::bad_alloc\<close> is not modelled.
\<close>

definition vector_max_size :: nat where
  "vector_max_size = 1152921504606846975"

definition new_row :: "size_t \<Rightarrow> fault + ColorType list" where
  "new_row width =
     (if unat width \<le> vector_max_size then Inr (replicate (unat width) EMPTY_COLOR)
      else Inl LengthError)"

text \<open>
  The loop \<open>for (auto i = 0; i < height; ++i)\<close>: \<open>i\<close> is an \<open>int\<close>, converted to
  \<open>size_t\<close> for the comparison. The row is built and appended before \<open>i\<close> is incremented.
\<close>

function init_rows ::
  "size_t \<Rightarrow> size_t \<Rightarrow> c_int \<Rightarrow> ColorType list list \<Rightarrow> fault + ColorType list list" where
  "init_rows width height i g =
     (if to_size_t i < height then
        (case new_row width of
           Inl e \<Rightarrow> Inl e
         | Inr row \<Rightarrow>
             (case int_add i 1 of
                Inl e \<Rightarrow> Inl e
              | Inr i' \<Rightarrow> init_rows width height i' (g @ [row])))
      else Inr g)"
  by pat_completeness auto

termination
  by (relation "measure (\<lambda>(width, height, i, g). nat (INT_MAX - sint i))")
    (auto simp: int_add_def INT_MIN_def INT_MAX_def sint_word_ariths
      signed_take_bit_int_eq_self split: if_splits)

declare init_rows.simps [simp del]

definition init_state :: "size_t \<Rightarrow> size_t \<Rightarrow> fault + GameState option" where
  "init_state width height =
     (if width = 0 \<or> height = 0 then Inr None
      else (case init_rows width height 0 [] of
              Inl e \<Rightarrow> Inl e
            | Inr g \<Rightarrow> Inr (Some \<lparr>grid = g, grid_width = width, grid_height = height,
                                   history = []\<rparr>)))"

section \<open>check_line\<close>

text \<open>
  The loop of \<open>check_line\<close>, with its variables \<open>step_i\<close>, \<open>token_counter\<close>,
  \<open>row_id\<close> and \<open>col_id\<close> as arguments. The comparisons of the cursor with
  \<open>grid_height - 1\<close> and \<open>grid_width - 1\<close> are unsigned, the comparisons with 0 signed.
\<close>

function check_line_loop ::
  "GameState \<Rightarrow> c_int \<Rightarrow> c_int \<Rightarrow> size_t \<Rightarrow> IdType \<Rightarrow> c_int \<Rightarrow> size_t \<Rightarrow> c_int \<Rightarrow> c_int
     \<Rightarrow> fault + bool" where
  "check_line_loop state inc_row inc_col steps player_id step_i token_counter row_id col_id =
     (if to_size_t step_i < steps then
        (case cell state (to_size_t row_id) (to_size_t col_id) of
           Inl e \<Rightarrow> Inl e
         | Inr v \<Rightarrow>
             (let token_counter' = (if v = player_id then token_counter + 1 else 0) in
              if token_counter' = line_len then Inr True
              else
                (case int_add col_id inc_col of
                   Inl e \<Rightarrow> Inl e
                 | Inr col_id' \<Rightarrow>
                     (case int_add row_id inc_row of
                        Inl e \<Rightarrow> Inl e
                      | Inr row_id' \<Rightarrow>
                          if grid_height state - 1 < to_size_t row_id' \<or> row_id' <s 0
                          then Inr False
                          else if grid_width state - 1 < to_size_t col_id' \<or> col_id' <s 0
                          then Inr False
                          else
                            (case int_add step_i 1 of
                               Inl e \<Rightarrow> Inl e
                             | Inr step_i' \<Rightarrow>
                                 check_line_loop state inc_row inc_col steps player_id
                                   step_i' token_counter' row_id' col_id')))))
      else Inr False)"
  by pat_completeness auto

termination
  by (relation "measure (\<lambda>(state, inc_row, inc_col, steps, player_id, step_i, rest).
                  nat (INT_MAX - sint step_i))")
    (auto simp: int_add_def INT_MIN_def INT_MAX_def sint_word_ariths
      signed_take_bit_int_eq_self split: if_splits)

declare check_line_loop.simps [simp del]

definition check_line ::
  "GameState \<Rightarrow> c_int \<Rightarrow> c_int \<Rightarrow> c_int \<Rightarrow> c_int \<Rightarrow> size_t \<Rightarrow> IdType \<Rightarrow> fault + bool" where
  "check_line state start_row_i start_col_i inc_row inc_col steps player_id =
     check_line_loop state inc_row inc_col steps player_id 0 0 start_row_i start_col_i"

section \<open>GameState::is_terminal\<close>

text \<open>
  The start of each of the four scans. \<open>token_row - line_offset\<close> is computed in
  \<open>size_t\<close> and converted back to \<open>int\<close> before \<open>std::max\<close>.
\<close>

definition back_off :: "c_int \<Rightarrow> c_int" where
  "back_off x = int_max (to_int (to_size_t x - line_offset)) 0"

definition forward_off :: "GameState \<Rightarrow> c_int \<Rightarrow> c_int" where
  "forward_off state x =
     int_min (to_int (to_size_t x + line_offset)) (to_int (grid_width state - 1))"

definition is_terminal :: "GameState \<Rightarrow> fault + IdType option" where
  "is_terminal state =
     (if history state = [] then Inr None
      else
        (case last (history state) of (token_row, token_col, player_id) \<Rightarrow>
          (case check_line state (back_off token_row) token_col 1 0 line_steps player_id of
             Inl e \<Rightarrow> Inl e
           | Inr True \<Rightarrow> Inr (Some player_id)
           | Inr False \<Rightarrow>
          (case check_line state token_row (back_off token_col) 0 1 line_steps player_id of
             Inl e \<Rightarrow> Inl e
           | Inr True \<Rightarrow> Inr (Some player_id)
           | Inr False \<Rightarrow>
          (case check_line state (back_off token_row) (back_off token_col) 1 1 line_steps
                  player_id of
             Inl e \<Rightarrow> Inl e
           | Inr True \<Rightarrow> Inr (Some player_id)
           | Inr False \<Rightarrow>
          (case check_line state (back_off token_row) (forward_off state token_col) 1 (- 1)
                  line_steps player_id of
             Inl e \<Rightarrow> Inl e
           | Inr True \<Rightarrow> Inr (Some player_id)
           | Inr False \<Rightarrow> Inr None))))))"

section \<open>trace_row_coordinate and make_turn\<close>

text \<open>
  The loop \<open>for (int row_i = int(grid_height - 1); row_i >= 0; --row_i)\<close>. The column
  argument is a \<open>size_t\<close>, so the test \<open>col_i < 0\<close> of the source is never true.
\<close>

function trace_row_loop :: "GameState \<Rightarrow> size_t \<Rightarrow> c_int \<Rightarrow> fault + size_t option" where
  "trace_row_loop state col_i row_i =
     (if 0 \<le>s row_i then
        (case cell state (to_size_t row_i) col_i of
           Inl e \<Rightarrow> Inl e
         | Inr v \<Rightarrow>
             if v = EMPTY_COLOR then Inr (Some (to_size_t row_i))
             else
               (case int_add row_i (- 1) of
                  Inl e \<Rightarrow> Inl e
                | Inr row_i' \<Rightarrow> trace_row_loop state col_i row_i'))
      else Inr None)"
  by pat_completeness auto

termination
  by (relation "measure (\<lambda>(state, col_i, row_i). nat (sint row_i + 1))")
    (auto simp: int_add_def INT_MIN_def INT_MAX_def sint_word_ariths
      signed_take_bit_int_eq_self word_sle_eq split: if_splits)

declare trace_row_loop.simps [simp del]

definition trace_row_coordinate :: "GameState \<Rightarrow> size_t \<Rightarrow> fault + size_t option" where
  "trace_row_coordinate state col_i =
     (if grid_width state \<le> col_i then Inr None
      else trace_row_loop state col_i (to_int (grid_height state - 1)))"

definition column_range_error :: ErrMsgType where
  "column_range_error = ''column index is outside of the grid range''"

definition column_full_error :: ErrMsgType where
  "column_full_error =
     ''token cannot be placed in a given column as it'' @ [CHR 0x27] @ ''s full or does not exist''"

text \<open>
  \<open>make_turn\<close> returns the optional error message together with the state it leaves
  behind. The history entry is built from two \<open>size_t\<close> values narrowed to \<open>int\<close>.
\<close>

definition make_turn ::
  "GameState \<Rightarrow> size_t \<Rightarrow> IdType \<Rightarrow> fault + (ErrMsgType option \<times> GameState)" where
  "make_turn state col_i player_id =
     (if grid_width state \<le> col_i then Inr (Some column_range_error, state)
      else
        (case trace_row_coordinate state col_i of
           Inl e \<Rightarrow> Inl e
         | Inr None \<Rightarrow> Inr (Some column_full_error, state)
         | Inr (Some row_i) \<Rightarrow>
             (case set_cell state row_i col_i player_id of
                Inl e \<Rightarrow> Inl e
              | Inr state' \<Rightarrow>
                  Inr (None, state'\<lparr>history :=
                         history state' @ [(to_int row_i, to_int col_i, player_id)]\<rparr>))))"

section \<open>Sequences of calls and valid states\<close>

text \<open>
  A driver calls \<open>make_turn\<close> again and again on the one state it owns. \<open>run_calls\<close>
  is such a sequence of calls, each given as (column, player id): a call that returns an
  error message leaves the state to the next call as \<open>make_turn\<close> left it.
\<close>

fun run_calls :: "GameState \<Rightarrow> (size_t \<times> IdType) list \<Rightarrow> fault + GameState" where
  "run_calls state [] = Inr state"
| "run_calls state (call # calls) =
     (case make_turn state (fst call) (snd call) of
        Inl e \<Rightarrow> Inl e
      | Inr (msg, state') \<Rightarrow> run_calls state' calls)"

text \<open>
  The invariant of the data model: positive dimensions, \<open>grid_height\<close> rows of
  \<open>grid_width\<close> cells. A row index is kept in an \<open>int\<close> by every loop of the source, so
  a valid state also has at most \<open>INT_MAX\<close> rows; \<open>init_state\<close> returns no other state.
\<close>

definition valid_state :: "GameState \<Rightarrow> bool" where
  "valid_state state \<longleftrightarrow>
     0 < grid_width state \<and> 0 < grid_height state \<and>
     uint (grid_height state) \<le> INT_MAX \<and>
     length (grid state) = unat (grid_height state) \<and>
     list_all (\<lambda>row. length row = unat (grid_width state)) (grid state)"

text \<open>
  The scans of \<open>is_terminal\<close> compute \<open>token_col + line_offset\<close> and narrow it to
  \<open>int\<close>: the result is exact when the last column index plus \<open>line_offset\<close> is at most
  \<open>INT_MAX\<close>.
\<close>

definition columns_fit_int :: "GameState \<Rightarrow> bool" where
  "columns_fit_int state \<longleftrightarrow> uint (grid_width state) - 1 + uint line_offset \<le> INT_MAX"

text \<open>The cell at mathematical coordinates, for stating properties of a valid grid.\<close>

definition cell_at :: "GameState \<Rightarrow> nat \<Rightarrow> nat \<Rightarrow> ColorType" where
  "cell_at state r c = grid state ! r ! c"


text \<open>A cursor that lies on the grid.\<close>

definition in_grid :: "GameState \<Rightarrow> c_int \<Rightarrow> c_int \<Rightarrow> bool" where
  "in_grid state r c \<longleftrightarrow>
     0 \<le> sint r \<and> sint r < uint (grid_height state) \<and>
     0 \<le> sint c \<and> sint c < uint (grid_width state)"

text \<open>
  The landing row in the words of the specification: the column is scanned from the bottom
  row upward, and the first row whose cell is empty is the answer, that is, the largest row
  index with an empty cell. \<open>lowest_empty_below\<close> looks at the rows below a bound only.
\<close>

definition lowest_empty_below :: "GameState \<Rightarrow> nat \<Rightarrow> nat \<Rightarrow> nat option" where
  "lowest_empty_below state c n =
     (case filter (\<lambda>r. cell_at state r c = EMPTY_COLOR) (rev [0..<n]) of
        [] \<Rightarrow> None
      | r # _ \<Rightarrow> Some r)"

definition lowest_empty_row :: "GameState \<Rightarrow> nat \<Rightarrow> nat option" where
  "lowest_empty_row state c = lowest_empty_below state c (unat (grid_height state))"

text \<open>The number of cells that hold a token.\<close>

definition occupied_in_row :: "ColorType list \<Rightarrow> nat" where
  "occupied_in_row row = length (filter (\<lambda>v. v \<noteq> EMPTY_COLOR) row)"

definition occupied :: "GameState \<Rightarrow> nat" where
  "occupied state = sum_list (map occupied_in_row (grid state))"

definition counted :: "GameState \<Rightarrow> bool" where
  "counted state \<longleftrightarrow> valid_state state \<and> length (history state) = occupied state"

text \<open>
  A win in the words of the specification: four consecutive cells of one player on a
  vertical, horizontal or diagonal line, the last placed cell among them.
  \<open>run_of_four state r c dr dc p\<close> says that the four cells starting at \<open>(r, c)\<close> in
  direction \<open>(dr, dc)\<close> lie on the grid and belong to \<open>p\<close>.
\<close>

definition run_of_four :: "GameState \<Rightarrow> int \<Rightarrow> int \<Rightarrow> int \<Rightarrow> int \<Rightarrow> IdType \<Rightarrow> bool" where
  "run_of_four state r c dr dc p \<longleftrightarrow>
     list_all
       (\<lambda>j. 0 \<le> r + j * dr \<and> r + j * dr < uint (grid_height state) \<and>
            0 \<le> c + j * dc \<and> c + j * dc < uint (grid_width state) \<and>
            cell_at state (nat (r + j * dr)) (nat (c + j * dc)) = p)
       [0, 1, 2, 3]"

definition completes_four :: "GameState \<Rightarrow> bool" where
  "completes_four state \<longleftrightarrow>
     (case last (history state) of (r, c, p) \<Rightarrow>
        list_ex
          (\<lambda>d. list_ex
                 (\<lambda>k. run_of_four state (sint r - k * fst d) (sint c - k * snd d) (fst d) (snd d) p)
                 [0, 1, 2, 3])
          [(1, 0), (0, 1), (1, 1), (1, - 1)])"

section \<open>Concrete games\<close>

text \<open>The board of the program's \<open>main\<close>: ten rows of ten empty cells.\<close>

definition board_10 :: GameState where
  "board_10 =
     \<lparr>grid = replicate 10 (replicate 10 EMPTY_COLOR), grid_width = 10, grid_height = 10,
      history = []\<rparr>"

text \<open>
  Eleven turns of players 1 and 2 in alternation. The last one drops a token of player 1
  into column 1; it lands on row 7 and completes the diagonal (6,0), (7,1), (8,2), (9,3).
\<close>

definition missed_calls :: "(size_t \<times> IdType) list" where
  "missed_calls =
     [(3, 1), (0, 2), (0, 1), (0, 2), (0, 1), (2, 2), (2, 1), (9, 2), (1, 1), (1, 2), (1, 1)]"

definition missed_state :: GameState where
  "missed_state =
     \<lparr>grid =
        [[0, 0, 0, 0, 0, 0, 0, 0, 0, 0], [0, 0, 0, 0, 0, 0, 0, 0, 0, 0],
         [0, 0, 0, 0, 0, 0, 0, 0, 0, 0], [0, 0, 0, 0, 0, 0, 0, 0, 0, 0],
         [0, 0, 0, 0, 0, 0, 0, 0, 0, 0], [0, 0, 0, 0, 0, 0, 0, 0, 0, 0],
         [1, 0, 0, 0, 0, 0, 0, 0, 0, 0], [2, 1, 0, 0, 0, 0, 0, 0, 0, 0],
         [1, 2, 1, 0, 0, 0, 0, 0, 0, 0], [2, 1, 2, 1, 0, 0, 0, 0, 0, 2]],
      grid_width = 10, grid_height = 10,
      history =
        [(9, 3, 1), (9, 0, 2), (8, 0, 1), (7, 0, 2), (6, 0, 1), (9, 2, 2), (8, 2, 1),
         (9, 9, 2), (9, 1, 1), (8, 1, 2), (7, 1, 1)]\<rparr>"

text \<open>
  Player 1 fills columns 0 to 3 of the bottom row while player 2 stacks tokens in columns
  9 and 8: the state after the third token of player 1, and after the fourth.
\<close>

definition three_in_row_state :: GameState where
  "three_in_row_state =
     \<lparr>grid =
        [[0, 0, 0, 0, 0, 0, 0, 0, 0, 0], [0, 0, 0, 0, 0, 0, 0, 0, 0, 0],
         [0, 0, 0, 0, 0, 0, 0, 0, 0, 0], [0, 0, 0, 0, 0, 0, 0, 0, 0, 0],
         [0, 0, 0, 0, 0, 0, 0, 0, 0, 0], [0, 0, 0, 0, 0, 0, 0, 0, 0, 0],
         [0, 0, 0, 0, 0, 0, 0, 0, 0, 0], [0, 0, 0, 0, 0, 0, 0, 0, 0, 0],
         [0, 0, 0, 0, 0, 0, 0, 0, 0, 2], [1, 1, 1, 0, 0, 0, 0, 0, 0, 2]],
      grid_width = 10, grid_height = 10,
      history = [(9, 0, 1), (9, 9, 2), (9, 1, 1), (8, 9, 2), (9, 2, 1)]\<rparr>"

definition four_in_row_state :: GameState where
  "four_in_row_state =
     \<lparr>grid =
        [[0, 0, 0, 0, 0, 0, 0, 0, 0, 0], [0, 0, 0, 0, 0, 0, 0, 0, 0, 0],
         [0, 0, 0, 0, 0, 0, 0, 0, 0, 0], [0, 0, 0, 0, 0, 0, 0, 0, 0, 0],
         [0, 0, 0, 0, 0, 0, 0, 0, 0, 0], [0, 0, 0, 0, 0, 0, 0, 0, 0, 0],
         [0, 0, 0, 0, 0, 0, 0, 0, 0, 0], [0, 0, 0, 0, 0, 0, 0, 0, 0, 0],
         [0, 0, 0, 0, 0, 0, 0, 0, 0, 2], [1, 1, 1, 1, 0, 0, 0, 0, 2, 2]],
      grid_width = 10, grid_height = 10,
      history =
        [(9, 0, 1), (9, 9, 2), (9, 1, 1), (8, 9, 2), (9, 2, 1), (9, 8, 2), (9, 3, 1)]\<rparr>"

text \<open>
  A two by two board after three turns: column 0 has one empty cell left, column 1 is full.
\<close>

definition small_state :: GameState where
  "small_state =
     \<lparr>grid = [[0, 1], [1, 2]], grid_width = 2, grid_height = 2,
      history = [(1, 0, 1), (1, 1, 2), (0, 1, 1)]\<rparr>"

text \<open>The board of one cell, and the same board after two turns of ``player'' 0.\<close>

definition single_cell :: GameState where
  "single_cell = \<lparr>grid = [[0]], grid_width = 1, grid_height = 1, history = []\<rparr>"

definition single_cell_twice :: GameState where
  "single_cell_twice =
     \<lparr>grid = [[0]], grid_width = 1, grid_height = 1, history = [(0, 0, 0), (0, 0, 0)]\<rparr>"

text \<open>
  A board of one row and 2147483646 columns, as \<open>init_state 2147483646 1\<close> returns it, and
  the same board after one token of player 1 in its last column.
\<close>

definition wide_board :: GameState where
  "wide_board =
     \<lparr>grid = [replicate 2147483646 EMPTY_COLOR], grid_width = 2147483646, grid_height = 1,
      history = []\<rparr>"

definition wide_state :: GameState where
  "wide_state =
     \<lparr>grid = [(replicate 2147483646 EMPTY_COLOR)[2147483645 := 1]],
      grid_width = 2147483646, grid_height = 1,
      history = [(0, 2147483645, 1)]\<rparr>"

text \<open>
  A board of one row and 2147483650 columns, as \<open>init_state 2147483650 1\<close> returns it;
  the same board after a token of player 1 in column 2147483649; and after a turn of player
  id 0 on that column instead.
\<close>

definition giant_board :: GameState where
  "giant_board =
     \<lparr>grid = [replicate 2147483650 EMPTY_COLOR], grid_width = 2147483650, grid_height = 1,
      history = []\<rparr>"

definition giant_state :: GameState where
  "giant_state =
     \<lparr>grid = [(replicate 2147483650 EMPTY_COLOR)[2147483649 := 1]],
      grid_width = 2147483650, grid_height = 1,
      history = [(0, - 2147483647, 1)]\<rparr>"

definition giant_empty_turn :: GameState where
  "giant_empty_turn =
     \<lparr>grid = [replicate 2147483650 EMPTY_COLOR], grid_width = 2147483650, grid_height = 1,
      history = [(0, - 2147483647, EMPTY_COLOR)]\<rparr>"

section \<open>Conversions between \<open>int\<close> and \<open>size_t\<close>\<close>

lemma sint_add_no_overflow:
  fixes a b :: c_int
  assumes "- 2147483648 \<le> sint a + sint b" and "sint a + sint b \<le> 2147483647"
  shows "sint (a + b) = sint a + sint b"
  using assms by (simp add: sint_word_ariths signed_take_bit_int_eq_self)

lemma int_add_sint:
  "int_add a b = Inr c \<Longrightarrow> sint c = sint a + sint b"
  by (auto simp: int_add_def INT_MIN_def INT_MAX_def sint_add_no_overflow split: if_splits)

lemma uint_to_size_t:
  assumes "0 \<le> sint i"
  shows "uint (to_size_t i) = sint i"
proof -
  have "sint i < 2 ^ 31" using sint_less [of i] by simp
  then have "sint i < 2 ^ 64" by simp
  then have m: "sint i mod 2 ^ 64 = sint i" using assms by simp
  have "uint (word_of_int (sint i) :: 64 word) = sint i mod 2 ^ LENGTH(64)"
    by (rule uint_word_of_int)
  then have "uint (word_of_int (sint i) :: 64 word) = sint i"
    using m by simp
  then show ?thesis
    by (simp only: to_size_t_def scast_eq)
qed

lemma unat_to_size_t:
  assumes "0 \<le> sint i"
  shows "unat (to_size_t i) = nat (sint i)"
  by (simp only: unat_eq_nat_uint uint_to_size_t [OF assms])

lemma sint_to_int:
  assumes "uint n \<le> INT_MAX"
  shows "sint (to_int n) = uint n"
proof -
  have b: "0 \<le> uint n" by simp
  have "signed_take_bit 31 (uint n) = uint n"
  proof (rule signed_take_bit_int_eq_self)
    show "- (2 ^ 31) \<le> uint n" by (rule order_trans [OF _ b]) simp
    show "uint n < 2 ^ 31" using assms by (simp add: INT_MAX_def)
  qed
  then show ?thesis
    by (simp add: to_int_def signed_ucast_eq)
qed

lemma to_int_minus:
  "to_int (to_size_t r - k) = r - to_int k"
proof -
  have "(ucast (word_of_int (sint r - uint k) :: 64 word) :: 32 word)
          = word_of_int (sint r - uint k)"
    by (rule ucast_down_wi) (simp add: is_down)
  moreover have "(scast r :: 64 word) - k = word_of_int (sint r - uint k)"
    by (simp add: wi_hom_sub [symmetric])
  moreover have "r - ucast k = (word_of_int (sint r - uint k) :: 32 word)"
    by (simp add: wi_hom_sub [symmetric])
  ultimately show ?thesis by (simp only: to_int_def to_size_t_def)
qed

lemma to_int_plus:
  "to_int (to_size_t r + k) = r + to_int k"
proof -
  have "(ucast (word_of_int (sint r + uint k) :: 64 word) :: 32 word)
          = word_of_int (sint r + uint k)"
    by (rule ucast_down_wi) (simp add: is_down)
  moreover have "(scast r :: 64 word) + k = word_of_int (sint r + uint k)"
    by (simp add: wi_hom_add [symmetric])
  moreover have "r + ucast k = (word_of_int (sint r + uint k) :: 32 word)"
    by (simp add: wi_hom_add [symmetric])
  ultimately show ?thesis by (simp only: to_int_def to_size_t_def)
qed

lemma to_size_t_less_iff:
  assumes "0 \<le> sint i"
  shows "to_size_t i < n \<longleftrightarrow> sint i < uint n"
  by (simp add: word_less_def uint_to_size_t [OF assms])

lemma int_add_Inr:
  assumes "INT_MIN \<le> sint a + sint b" and "sint a + sint b \<le> INT_MAX"
  shows "int_add a b = Inr (a + b)"
  using assms by (simp add: int_add_def)

lemma int_add_Inl:
  assumes "INT_MAX < sint a + sint b"
  shows "int_add a b = Inl SignedOverflow"
  using assms by (simp add: int_add_def)

lemma uint_minus_1:
  fixes n :: size_t
  assumes "n \<noteq> 0"
  shows "uint (n - 1) = uint n - 1"
proof -
  have "unat (n - 1) = unat n - 1"
    using assms by (rule unat_minus_one)
  moreover have "0 < unat n"
    using assms by (simp add: unat_gt_0)
  ultimately have "int (unat (n - 1)) = int (unat n) - 1"
    by simp
  then show ?thesis
    by (simp only: uint_nat)
qed

lemma uint_to_size_t_neg:
  assumes "sint i < 0"
  shows "uint (to_size_t i) = 2 ^ 64 + sint i"
proof -
  have "- (2 ^ 31) \<le> sint i" using sint_ge [of i] by simp
  then have "0 \<le> 2 ^ 64 + sint i" by simp
  moreover have "2 ^ 64 + sint i < 2 ^ 64" using assms by simp
  ultimately have "(2 ^ 64 + sint i) mod 2 ^ 64 = 2 ^ 64 + sint i"
    by (rule mod_pos_pos_trivial)
  then have m: "sint i mod 2 ^ 64 = 2 ^ 64 + sint i"
    by simp
  have "uint (word_of_int (sint i) :: 64 word) = sint i mod 2 ^ LENGTH(64)"
    by (rule uint_word_of_int)
  then have "uint (word_of_int (sint i) :: 64 word) = 2 ^ 64 + sint i"
    using m by simp
  then show ?thesis
    by (simp only: to_size_t_def scast_eq)
qed

lemma uint_less_of_unat_less:
  fixes a b :: size_t
  assumes "unat a < unat b"
  shows "uint a < uint b"
  using assms by (simp only: uint_nat of_nat_less_iff)

lemma uint_to_size_t_neg_big:
  assumes "sint i < 0" and "uint n \<le> INT_MAX"
  shows "\<not> uint (to_size_t i) < uint n"
proof -
  have "- (2 ^ 31) \<le> sint i" using sint_ge [of i] by simp
  then have "2 ^ 64 - 2 ^ 31 \<le> uint (to_size_t i)"
    by (simp add: uint_to_size_t_neg [OF assms(1)])
  then show ?thesis using assms(2) by (simp add: INT_MAX_def)
qed

section \<open>Properties of init_state\<close>

lemma new_row_Inr:
  assumes "unat width \<le> vector_max_size"
  shows "new_row width = Inr (replicate (unat width) EMPTY_COLOR)"
  using assms by (simp add: new_row_def)

lemma init_rows_in_range:
  assumes "0 \<le> sint i" and "sint i \<le> uint height" and "uint height \<le> INT_MAX"
    and "unat width \<le> vector_max_size"
  shows "init_rows width height i g =
           Inr (g @ replicate (nat (uint height - sint i)) (replicate (unat width) EMPTY_COLOR))"
  using assms
proof (induction width height i g rule: init_rows.induct)
  case (1 width height i g)
  note row = new_row_Inr [OF "1.prems"(4)]
  show ?case
  proof (cases "sint i < uint height")
    case True
    then have lt: "to_size_t i < height"
      using "1.prems" by (simp add: to_size_t_less_iff)
    have le: "sint i + sint (1 :: c_int) \<le> INT_MAX"
      using True "1.prems" by simp
    have ge: "INT_MIN \<le> sint i + sint (1 :: c_int)"
      using "1.prems" by (simp add: INT_MIN_def)
    have add: "int_add i 1 = Inr (i + 1)"
      using ge le by (rule int_add_Inr)
    have s1: "sint (i + 1) = sint i + 1"
      using int_add_sint [OF add] by simp
    have ih: "init_rows width height (i + 1) (g @ [replicate (unat width) EMPTY_COLOR]) =
        Inr ((g @ [replicate (unat width) EMPTY_COLOR]) @
             replicate (nat (uint height - sint (i + 1))) (replicate (unat width) EMPTY_COLOR))"
      using "1.IH" [OF lt row add] True "1.prems" s1 by simp
    have n: "nat (uint height - sint i) = Suc (nat (uint height - sint (i + 1)))"
      using True s1 by simp
    show ?thesis
      by (subst init_rows.simps) (simp add: lt row add ih n)
  next
    case False
    then have "\<not> to_size_t i < height"
      using "1.prems" by (simp add: to_size_t_less_iff)
    moreover have "uint height - sint i = 0"
      using False "1.prems" by simp
    ultimately show ?thesis
      by (subst init_rows.simps) simp
  qed
qed

lemma init_rows_overflow:
  assumes "0 \<le> sint i" and "INT_MAX < uint height" and "unat width \<le> vector_max_size"
  shows "init_rows width height i g = Inl SignedOverflow"
  using assms
proof (induction width height i g rule: init_rows.induct)
  case (1 width height i g)
  note row = new_row_Inr [OF "1.prems"(3)]
  have "sint i < 2 ^ 31" using sint_less [of i] by simp
  then have imax: "sint i \<le> INT_MAX" by (simp add: INT_MAX_def)
  then have lt: "to_size_t i < height"
    using "1.prems" by (simp add: to_size_t_less_iff)
  show ?case
  proof (cases "sint i = INT_MAX")
    case True
    then have "int_add i 1 = Inl SignedOverflow"
      by (intro int_add_Inl) simp
    then show ?thesis
      by (subst init_rows.simps) (simp add: lt row)
  next
    case False
    then have le: "sint i + sint (1 :: c_int) \<le> INT_MAX"
      using imax by simp
    have ge: "INT_MIN \<le> sint i + sint (1 :: c_int)"
      using "1.prems" by (simp add: INT_MIN_def)
    have add: "int_add i 1 = Inr (i + 1)"
      using ge le by (rule int_add_Inr)
    have s1: "sint (i + 1) = sint i + 1"
      using int_add_sint [OF add] by simp
    have "init_rows width height (i + 1) (g @ [replicate (unat width) EMPTY_COLOR]) =
            Inl SignedOverflow"
      using "1.IH" [OF lt row add] "1.prems" s1 by simp
    then show ?thesis
      by (subst init_rows.simps) (simp add: lt row add)
  qed
qed

lemma init_rows_length_error:
  assumes "to_size_t i < height" and "vector_max_size < unat width"
  shows "init_rows width height i g = Inl LengthError"
  using assms by (subst init_rows.simps) (simp add: new_row_def)

lemma init_state_eq:
  "init_state width height =
     (if width = 0 \<or> height = 0 then Inr None
      else if vector_max_size < unat width then Inl LengthError
      else if uint height \<le> INT_MAX then
        Inr (Some \<lparr>grid = replicate (unat height) (replicate (unat width) EMPTY_COLOR),
                    grid_width = width, grid_height = height, history = []\<rparr>)
      else Inl SignedOverflow)"
proof (cases "vector_max_size < unat width")
  case True
  have "to_size_t 0 < height" if "height \<noteq> 0"
    using that by (simp add: to_size_t_def word_greater_zero_iff)
  then have "init_rows width height 0 [] = Inl LengthError" if "height \<noteq> 0"
    using that True by (intro init_rows_length_error) simp_all
  then show ?thesis
    using True by (simp add: init_state_def)
next
  case big: False
  then have w: "unat width \<le> vector_max_size" by simp
  show ?thesis
  proof (cases "uint height \<le> INT_MAX")
    case True
    have "init_rows width height 0 [] =
            Inr ([] @ replicate (nat (uint height - sint (0 :: c_int)))
                        (replicate (unat width) EMPTY_COLOR))"
      by (rule init_rows_in_range) (use True w in simp_all)
    then show ?thesis using True big by (simp add: init_state_def)
  next
    case False
    then have "init_rows width height 0 [] = Inl SignedOverflow"
      using w by (intro init_rows_overflow) simp_all
    then show ?thesis using False big by (simp add: init_state_def)
  qed
qed

lemma init_state_valid:
  assumes "init_state width height = Inr (Some state)"
  shows "valid_state state"
proof -
  have nz: "width \<noteq> 0" "height \<noteq> 0" and le: "uint height \<le> INT_MAX"
    and w: "\<not> vector_max_size < unat width"
    using assms by (auto simp: init_state_eq split: if_splits)
  have st: "state = \<lparr>grid = replicate (unat height) (replicate (unat width) EMPTY_COLOR),
                    grid_width = width, grid_height = height, history = []\<rparr>"
    using assms nz le w by (simp add: init_state_eq)
  show ?thesis
    using nz le by (simp add: st valid_state_def word_greater_zero_iff list_all_length)
qed

section \<open>The landing row and make_turn\<close>

lemma lowest_empty_below_0: "lowest_empty_below state c 0 = None"
  by (simp add: lowest_empty_below_def)

lemma lowest_empty_below_Suc:
  "lowest_empty_below state c (Suc n) =
     (if cell_at state n c = EMPTY_COLOR then Some n else lowest_empty_below state c n)"
  by (simp add: lowest_empty_below_def)

lemma lowest_empty_below_None:
  "lowest_empty_below state c n = None \<longleftrightarrow> (\<forall>r<n. cell_at state r c \<noteq> EMPTY_COLOR)"
  by (induction n) (auto simp: lowest_empty_below_0 lowest_empty_below_Suc less_Suc_eq)

lemma lowest_empty_below_Some:
  "lowest_empty_below state c n = Some r \<longleftrightarrow>
     r < n \<and> cell_at state r c = EMPTY_COLOR \<and> (\<forall>r'. r < r' \<and> r' < n \<longrightarrow> cell_at state r' c \<noteq> EMPTY_COLOR)"
proof (induction n)
  case 0
  then show ?case by (simp add: lowest_empty_below_0)
next
  case (Suc n)
  show ?case
  proof (cases "cell_at state n c = EMPTY_COLOR")
    case True
    then show ?thesis
      apply (simp add: lowest_empty_below_Suc)
      by (metis less_Suc_eq linorder_neqE_nat not_less_eq)
  next
    case False
    then show ?thesis
      apply (simp add: lowest_empty_below_Suc Suc.IH)
      by (metis less_Suc_eq)
  qed
qed

lemma cell_valid:
  assumes "valid_state state" and "unat r < unat (grid_height state)"
    and "unat c < unat (grid_width state)"
  shows "cell state r c = Inr (cell_at state (unat r) (unat c))"
proof -
  have len: "length (grid state) = unat (grid_height state)"
    using assms(1) by (simp add: valid_state_def)
  have "\<forall>i<length (grid state). length (grid state ! i) = unat (grid_width state)"
    using assms(1) by (simp add: valid_state_def list_all_length)
  then have "length (grid state ! unat r) = unat (grid_width state)"
    using assms(2) len by simp
  then show ?thesis
    using assms len by (simp add: cell_def cell_at_def)
qed

lemma trace_row_loop_eq:
  assumes "valid_state state" and "col_i < grid_width state"
    and "- 1 \<le> sint row_i" and "sint row_i < uint (grid_height state)"
  shows "trace_row_loop state col_i row_i =
           Inr (map_option of_nat (lowest_empty_below state (unat col_i) (nat (sint row_i + 1))))"
  using assms
proof (induction state col_i row_i rule: trace_row_loop.induct)
  case (1 state col_i row_i)
  show ?case
  proof (cases "0 \<le> sint row_i")
    case False
    then have "sint row_i + 1 \<le> 0" using "1.prems" by simp
    then have "nat (sint row_i + 1) = 0" by simp
    then show ?thesis using False
      by (subst trace_row_loop.simps) (simp add: word_sle_eq lowest_empty_below_0)
  next
    case True
    then have sle: "0 \<le>s row_i" by (simp add: word_sle_eq)
    have u: "unat (to_size_t row_i) = nat (sint row_i)"
      using True by (rule unat_to_size_t)
    have rlt: "unat (to_size_t row_i) < unat (grid_height state)"
      using u True "1.prems" by (simp add: nat_less_iff)
    have clt: "unat col_i < unat (grid_width state)"
      using "1.prems" by (simp add: word_less_nat_alt)
    have c: "cell state (to_size_t row_i) col_i = Inr (cell_at state (nat (sint row_i)) (unat col_i))"
      using cell_valid [OF "1.prems"(1) rlt clt] u by simp
    have n: "nat (sint row_i + 1) = Suc (nat (sint row_i))"
      using True by simp
    show ?thesis
    proof (cases "cell_at state (nat (sint row_i)) (unat col_i) = EMPTY_COLOR")
      case e: True
      have "(of_nat (nat (sint row_i)) :: size_t) = to_size_t row_i"
        using True by (simp add: to_size_t_def)
      then show ?thesis using e
        by (subst trace_row_loop.simps) (simp add: sle c n lowest_empty_below_Suc)
    next
      case ne: False
      have ge: "INT_MIN \<le> sint row_i + sint (- 1 :: c_int)"
        using True by (simp add: INT_MIN_def)
      have le: "sint row_i + sint (- 1 :: c_int) \<le> INT_MAX"
        using sint_less [of row_i] by (simp add: INT_MAX_def)
      have add: "int_add row_i (- 1) = Inr (row_i - 1)"
        using int_add_Inr [OF ge le] by simp
      have s1: "sint (row_i - 1) = sint row_i - 1"
        using int_add_sint [OF add] by simp
      have "trace_row_loop state col_i (row_i - 1) =
              Inr (map_option of_nat
                (lowest_empty_below state (unat col_i) (nat (sint (row_i - 1) + 1))))"
        using "1.IH" [OF sle c ne add] "1.prems" True s1 by simp
      then have "trace_row_loop state col_i (row_i - 1) =
              Inr (map_option of_nat
                (lowest_empty_below state (unat col_i) (nat (sint row_i))))"
        by (simp add: s1)
      then show ?thesis using ne
        by (subst trace_row_loop.simps) (simp add: sle c n add lowest_empty_below_Suc)
    qed
  qed
qed


lemma sint_last_row:
  assumes "valid_state state"
  shows "sint (to_int (grid_height state - 1)) = uint (grid_height state) - 1"
proof -
  have nz: "grid_height state \<noteq> 0" and le: "uint (grid_height state) \<le> INT_MAX"
    using assms by (auto simp: valid_state_def)
  have "unat (grid_height state - 1) = unat (grid_height state) - 1"
    using nz by (rule unat_minus_one)
  moreover have "0 < unat (grid_height state)"
    using nz by (simp add: unat_gt_0)
  ultimately have "int (unat (grid_height state - 1)) = int (unat (grid_height state)) - 1"
    by simp
  then have u: "uint (grid_height state - 1) = uint (grid_height state) - 1"
    by (simp only: uint_nat)
  then have "uint (grid_height state - 1) \<le> INT_MAX"
    using le by simp
  then show ?thesis
    using u by (simp add: sint_to_int)
qed

lemma trace_row_coordinate_eq:
  assumes "valid_state state" and "col_i < grid_width state"
  shows "trace_row_coordinate state col_i =
           Inr (map_option of_nat (lowest_empty_row state (unat col_i)))"
proof -
  let ?i = "to_int (grid_height state - 1)"
  have s: "sint ?i = uint (grid_height state) - 1"
    using assms(1) by (rule sint_last_row)
  have nn: "0 \<le> uint (grid_height state)"
    by (rule uint_nonnegative)
  have "trace_row_loop state col_i ?i =
          Inr (map_option of_nat (lowest_empty_below state (unat col_i) (nat (sint ?i + 1))))"
  proof (rule trace_row_loop_eq [OF assms])
    show "- 1 \<le> sint ?i" using nn s by linarith
    show "sint ?i < uint (grid_height state)" using s by linarith
  qed
  moreover have "nat (sint ?i + 1) = unat (grid_height state)"
    by (simp add: s)
  ultimately show ?thesis
    using assms(2) by (simp add: trace_row_coordinate_def lowest_empty_row_def not_le [symmetric])
qed

lemma lowest_empty_row_bound:
  assumes "lowest_empty_row state c = Some r"
  shows "r < unat (grid_height state)"
  using assms by (simp add: lowest_empty_row_def lowest_empty_below_Some)

lemma unat_of_nat_row:
  assumes "r < unat (grid_height state)"
  shows "unat (of_nat r :: size_t) = r"
proof -
  have "r \<le> unat (grid_height state)" using assms by simp
  then show ?thesis by (rule le_unat_uoi)
qed

lemma make_turn_eq:
  assumes "valid_state state" and "col_i < grid_width state"
  shows "make_turn state col_i player_id =
    (case lowest_empty_row state (unat col_i) of
       None \<Rightarrow> Inr (Some column_full_error, state)
     | Some r \<Rightarrow>
         Inr (None, state\<lparr>grid := (grid state)[r := (grid state ! r)[unat col_i := player_id]],
                         history := history state @ [(to_int (of_nat r), to_int col_i, player_id)]\<rparr>))"
proof (cases "lowest_empty_row state (unat col_i)")
  case None
  then show ?thesis
    using assms(2) by (simp add: make_turn_def trace_row_coordinate_eq [OF assms] not_le [symmetric])
next
  case (Some r)
  have r: "r < unat (grid_height state)"
    using Some by (rule lowest_empty_row_bound)
  have u: "unat (of_nat r :: size_t) = r"
    using r by (rule unat_of_nat_row)
  have len: "length (grid state) = unat (grid_height state)"
    using assms(1) by (simp add: valid_state_def)
  have "\<forall>i<length (grid state). length (grid state ! i) = unat (grid_width state)"
    using assms(1) by (simp add: valid_state_def list_all_length)
  then have w: "length (grid state ! r) = unat (grid_width state)"
    using r len by simp
  have c: "unat col_i < unat (grid_width state)"
    using assms(2) by (simp add: word_less_nat_alt)
  have "set_cell state (of_nat r) col_i player_id =
          Inr (state\<lparr>grid := (grid state)[r := (grid state ! r)[unat col_i := player_id]]\<rparr>)"
    using r len w c by (simp add: set_cell_def u)
  then show ?thesis
    using assms(2) Some
    by (simp add: make_turn_def trace_row_coordinate_eq [OF assms] not_le [symmetric])
qed

lemma make_turn_out_of_range:
  assumes "grid_width state \<le> col_i"
  shows "make_turn state col_i player_id = Inr (Some column_range_error, state)"
  using assms by (simp add: make_turn_def)

lemma valid_state_update:
  assumes "valid_state state"
  shows "valid_state (state\<lparr>grid := (grid state)[r := (grid state ! r)[c := v]], history := hs\<rparr>)"
proof -
  have rows: "\<forall>i<length (grid state). length (grid state ! i) = unat (grid_width state)"
    using assms by (simp add: valid_state_def list_all_length)
  have "\<forall>i<length (grid state).
      length ((grid state)[r := (grid state ! r)[c := v]] ! i) = unat (grid_width state)"
  proof (intro allI impI)
    fix i assume i: "i < length (grid state)"
    show "length ((grid state)[r := (grid state ! r)[c := v]] ! i) = unat (grid_width state)"
      using rows i by (cases "i = r") simp_all
  qed
  then show ?thesis
    using assms by (simp add: valid_state_def list_all_length)
qed

lemma make_turn_valid:
  assumes "valid_state state" and "make_turn state col_i player_id = Inr (msg, state')"
  shows "valid_state state'"
proof (cases "grid_width state \<le> col_i")
  case True
  then show ?thesis
    using assms by (simp add: make_turn_out_of_range)
next
  case False
  then have lt: "col_i < grid_width state" by simp
  show ?thesis
    using assms(2) valid_state_update [OF assms(1)] assms(1)
    by (auto simp: make_turn_eq [OF assms(1) lt] split: option.splits)
qed

text \<open>
  With \<open>init_state_valid\<close> and \<open>make_turn_valid\<close>: every state that \<open>init_state\<close> returns,
  and every state reached from it by calls of \<open>make_turn\<close>, is a valid state.
\<close>

lemma run_calls_valid:
  assumes "valid_state state" and "run_calls state calls = Inr state'"
  shows "valid_state state'"
  using assms
proof (induction calls arbitrary: state)
  case Nil
  then show ?case by simp
next
  case (Cons call calls)
  then show ?case
    by (auto split: sum.splits prod.splits dest: make_turn_valid)
qed

section \<open>The scan of check_line on a valid grid\<close>

lemma beyond_last_iff:
  fixes n :: size_t
  assumes "n \<noteq> 0"
  shows "(n - 1 < to_size_t i \<or> i <s 0) \<longleftrightarrow> \<not> (0 \<le> sint i \<and> sint i < uint n)"
proof (cases "0 \<le> sint i")
  case True
  have "n - 1 < to_size_t i \<longleftrightarrow> uint n - 1 < sint i"
    by (simp add: word_less_def uint_to_size_t [OF True] uint_minus_1 [OF assms])
  then show ?thesis
    using True by (auto simp: word_sless_alt)
next
  case False
  then show ?thesis by (simp add: word_sless_alt)
qed

lemma cell_in_grid:
  assumes "valid_state state" and "in_grid state r c"
  shows "cell state (to_size_t r) (to_size_t c) = Inr (cell_at state (nat (sint r)) (nat (sint c)))"
proof -
  have r: "unat (to_size_t r) = nat (sint r)" and c: "unat (to_size_t c) = nat (sint c)"
    using assms(2) by (simp_all add: in_grid_def unat_to_size_t)
  have "nat (sint r) < unat (grid_height state)" and "nat (sint c) < unat (grid_width state)"
    using assms(2) by (simp_all add: in_grid_def nat_less_iff)
  then show ?thesis
    using cell_valid [OF assms(1), of "to_size_t r" "to_size_t c"] by (simp add: r c)
qed

lemma cell_not_in_grid:
  assumes "valid_state state" and "uint (grid_width state) \<le> INT_MAX"
    and "\<not> in_grid state r c"
  shows "cell state (to_size_t r) (to_size_t c) = Inl OutOfBounds"
proof -
  have len: "length (grid state) = unat (grid_height state)"
    using assms(1) by (simp add: valid_state_def)
  have rows: "\<forall>i<length (grid state). length (grid state ! i) = unat (grid_width state)"
    using assms(1) by (simp add: valid_state_def list_all_length)
  have hmax: "uint (grid_height state) \<le> INT_MAX"
    using assms(1) by (simp add: valid_state_def)
  show ?thesis
  proof (cases "unat (to_size_t r) < length (grid state)")
    case False
    then show ?thesis by (simp add: cell_def)
  next
    case True
    then have "unat (to_size_t r) < unat (grid_height state)"
      using len by simp
    then have rlt: "uint (to_size_t r) < uint (grid_height state)"
      by (rule uint_less_of_unat_less)
    have rpos: "0 \<le> sint r"
    proof (rule ccontr)
      assume "\<not> 0 \<le> sint r"
      then have "sint r < 0" by simp
      then show False
        using uint_to_size_t_neg_big [OF _ hmax] rlt by blast
    qed
    then have rin: "sint r < uint (grid_height state)"
      using rlt by (simp add: uint_to_size_t)
    have w: "length (grid state ! unat (to_size_t r)) = unat (grid_width state)"
      using rows True by simp
    have "\<not> unat (to_size_t c) < unat (grid_width state)"
    proof
      assume "unat (to_size_t c) < unat (grid_width state)"
      then have clt: "uint (to_size_t c) < uint (grid_width state)"
        by (rule uint_less_of_unat_less)
      show False
      proof (cases "0 \<le> sint c")
        case True
        then show ?thesis
          using clt assms(3) rpos rin by (simp add: in_grid_def uint_to_size_t)
      next
        case False
        then have "sint c < 0" by simp
        then show ?thesis
          using uint_to_size_t_neg_big [OF _ assms(2)] clt by blast
      qed
    qed
    then show ?thesis by (simp add: cell_def w)
  qed
qed


lemma check_line_loop_step:
  assumes "valid_state state" and "in_grid state row_id col_id"
  shows "check_line_loop state inc_row inc_col steps player_id step_i token_counter row_id col_id =
     (if to_size_t step_i < steps then
        (let token_counter' =
               (if cell_at state (nat (sint row_id)) (nat (sint col_id)) = player_id
                then token_counter + 1 else 0) in
         if token_counter' = line_len then Inr True
         else
           (case int_add col_id inc_col of
              Inl e \<Rightarrow> Inl e
            | Inr col_id' \<Rightarrow>
                (case int_add row_id inc_row of
                   Inl e \<Rightarrow> Inl e
                 | Inr row_id' \<Rightarrow>
                     if \<not> in_grid state row_id' col_id' then Inr False
                     else
                       (case int_add step_i 1 of
                          Inl e \<Rightarrow> Inl e
                        | Inr step_i' \<Rightarrow>
                            check_line_loop state inc_row inc_col steps player_id
                              step_i' token_counter' row_id' col_id'))))
      else Inr False)"
proof -
  have h: "grid_height state \<noteq> 0" and w: "grid_width state \<noteq> 0"
    using assms(1) by (auto simp: valid_state_def)
  have g: "(if grid_height state - 1 < to_size_t r \<or> r <s 0 then Inr False
            else if grid_width state - 1 < to_size_t c \<or> c <s 0 then Inr False else x) =
           (if \<not> in_grid state r c then Inr False else x)" for r c and x :: "fault + bool"
    unfolding beyond_last_iff [OF h] beyond_last_iff [OF w] in_grid_def by auto
  show ?thesis
    by (subst check_line_loop.simps)
      (simp only: cell_in_grid [OF assms] g sum.case Let_def)
qed

lemma in_grid_checks:
  assumes "valid_state state" and "in_grid state r c"
  shows "\<not> (grid_height state - 1 < to_size_t r \<or> r <s 0)"
    and "\<not> (grid_width state - 1 < to_size_t c \<or> c <s 0)"
proof -
  have h: "grid_height state \<noteq> 0" and w: "grid_width state \<noteq> 0"
    using assms(1) by (auto simp: valid_state_def)
  show "\<not> (grid_height state - 1 < to_size_t r \<or> r <s 0)"
    unfolding beyond_last_iff [OF h] using assms(2) by (simp add: in_grid_def)
  show "\<not> (grid_width state - 1 < to_size_t c \<or> c <s 0)"
    unfolding beyond_last_iff [OF w] using assms(2) by (simp add: in_grid_def)
qed

lemma int_add_fault:
  "int_add a b = Inl e \<Longrightarrow> e = SignedOverflow"
  by (simp add: int_add_def split: if_splits)

lemma check_line_loop_no_oob:
  assumes "valid_state state" and "in_grid state row_id col_id"
  shows "check_line_loop state inc_row inc_col steps player_id step_i token_counter row_id col_id
           \<noteq> Inl OutOfBounds"
  using assms
proof (induction state inc_row inc_col steps player_id step_i token_counter row_id col_id
    rule: check_line_loop.induct)
  case (1 state inc_row inc_col steps player_id step_i token_counter row_id col_id)
  note step = check_line_loop_step [OF "1.prems", of inc_row inc_col steps player_id step_i token_counter]
  note c = cell_in_grid [OF "1.prems"]
  define tc where "tc = (if cell_at state (nat (sint row_id)) (nat (sint col_id)) = player_id
                         then token_counter + 1 else 0)"
  have ih: "check_line_loop state inc_row inc_col steps player_id step_i' tc row_id' col_id'
              \<noteq> Inl OutOfBounds"
    if "to_size_t step_i < steps" and "tc \<noteq> line_len"
      and "int_add col_id inc_col = Inr col_id'" and "int_add row_id inc_row = Inr row_id'"
      and "in_grid state row_id' col_id'" and "int_add step_i 1 = Inr step_i'"
    for step_i' row_id' col_id'
    using "1.IH" [OF that(1) c tc_def that(2) that(3) that(4)
        in_grid_checks [OF "1.prems"(1) that(5)] that(6) "1.prems"(1) that(5)] .
  show ?case
    unfolding step tc_def [symmetric] Let_def
    using ih by (auto split: sum.splits dest: int_add_fault)
qed

lemma check_line_loop_total:
  assumes "valid_state state" and "in_grid state row_id col_id"
    and "uint (grid_width state) \<le> INT_MAX"
    and "- 1 \<le> sint inc_row" and "sint inc_row \<le> 1"
    and "- 1 \<le> sint inc_col" and "sint inc_col \<le> 1"
    and "0 \<le> sint step_i" and "uint steps \<le> INT_MAX"
  shows "\<exists>b. check_line_loop state inc_row inc_col steps player_id step_i token_counter
               row_id col_id = Inr b"
  using assms
proof (induction state inc_row inc_col steps player_id step_i token_counter row_id col_id
    rule: check_line_loop.induct)
  case (1 state inc_row inc_col steps player_id step_i token_counter row_id col_id)
  note step = check_line_loop_step [OF "1.prems"(1,2), of inc_row inc_col steps player_id step_i token_counter]
  note c = cell_in_grid [OF "1.prems"(1,2)]
  define tc where "tc = (if cell_at state (nat (sint row_id)) (nat (sint col_id)) = player_id
                         then token_counter + 1 else 0)"
  have hmax: "uint (grid_height state) \<le> INT_MAX"
    using "1.prems"(1) by (simp add: valid_state_def)
  have col: "int_add col_id inc_col = Inr (col_id + inc_col)"
    using "1.prems" by (intro int_add_Inr) (simp_all add: in_grid_def INT_MIN_def INT_MAX_def)
  have row: "int_add row_id inc_row = Inr (row_id + inc_row)"
    using "1.prems" hmax by (intro int_add_Inr) (simp_all add: in_grid_def INT_MIN_def INT_MAX_def)
  show ?case
  proof (cases "to_size_t step_i < steps")
    case False
    then show ?thesis unfolding step by auto
  next
    case True
    then have "sint step_i < uint steps"
      using "1.prems" by (simp add: to_size_t_less_iff)
    then have stp: "int_add step_i 1 = Inr (step_i + 1)"
      using "1.prems" by (intro int_add_Inr) (simp_all add: INT_MIN_def)
    have s1: "0 \<le> sint (step_i + 1)"
      using int_add_sint [OF stp] "1.prems" by simp
    show ?thesis
    proof (cases "tc \<noteq> line_len \<and> in_grid state (row_id + inc_row) (col_id + inc_col)")
      case False
      then show ?thesis
        unfolding step tc_def [symmetric] Let_def by (auto simp: col row)
    next
      case ok: True
      then have tcn: "tc \<noteq> line_len"
        and ing: "in_grid state (row_id + inc_row) (col_id + inc_col)" by simp_all
      have "\<exists>b. check_line_loop state inc_row inc_col steps player_id (step_i + 1) tc
                  (row_id + inc_row) (col_id + inc_col) = Inr b"
        using "1.IH" [OF True c tc_def tcn col row in_grid_checks [OF "1.prems"(1) ing] stp
            "1.prems"(1) ing "1.prems"(3-7) s1 "1.prems"(9)] .
      then show ?thesis
        unfolding step tc_def [symmetric] Let_def using True ok by (auto simp: col row stp)
    qed
  qed
qed

section \<open>The four scans of is_terminal\<close>

lemma to_int_line_offset: "to_int line_offset = 3"
  by (simp add: to_int_def line_offset_def line_len_def)

lemma sint_back_off:
  assumes "0 \<le> sint x"
  shows "sint (back_off x) = max (sint x - 3) 0"
proof -
  have "sint (x - 3) = signed_take_bit 31 (sint x - 3)"
    by (simp add: sint_word_ariths)
  moreover have "sint x < 2 ^ 31" using sint_less [of x] by simp
  ultimately have s: "sint (x - 3) = sint x - 3"
    using assms by (simp add: signed_take_bit_int_eq_self)
  show ?thesis
    by (simp add: back_off_def to_int_minus to_int_line_offset int_max_def word_sless_alt s)
qed

lemma sint_forward_off:
  assumes "valid_state state" and "columns_fit_int state"
    and "0 \<le> sint x" and "sint x < uint (grid_width state)"
  shows "sint (forward_off state x) = min (sint x + 3) (uint (grid_width state) - 1)"
proof -
  have fit: "uint (grid_width state) + 2 \<le> INT_MAX"
    using assms(2) by (simp add: columns_fit_int_def line_offset_def line_len_def)
  have w: "grid_width state \<noteq> 0"
    using assms(1) by (auto simp: valid_state_def)
  have "sint (x + 3) = signed_take_bit 31 (sint x + 3)"
    by (simp add: sint_word_ariths)
  then have s: "sint (x + 3) = sint x + 3"
    using assms(3,4) fit by (simp add: signed_take_bit_int_eq_self INT_MAX_def)
  have "uint (grid_width state - 1) \<le> INT_MAX"
    using fit by (simp add: uint_minus_1 [OF w])
  then have l: "sint (to_int (grid_width state - 1)) = uint (grid_width state) - 1"
    by (simp add: sint_to_int uint_minus_1 [OF w])
  show ?thesis
    by (simp add: forward_off_def to_int_plus to_int_line_offset int_min_def word_sless_alt s l)
qed

lemma in_grid_starts:
  assumes "valid_state state" and "columns_fit_int state" and "in_grid state r c"
  shows "in_grid state (back_off r) c" and "in_grid state r (back_off c)"
    and "in_grid state (back_off r) (back_off c)"
    and "in_grid state (back_off r) (forward_off state c)"
proof -
  have r: "0 \<le> sint r" "sint r < uint (grid_height state)"
    and c: "0 \<le> sint c" "sint c < uint (grid_width state)"
    using assms(3) by (simp_all add: in_grid_def)
  note br = sint_back_off [OF r(1)] and bc = sint_back_off [OF c(1)]
    and fc = sint_forward_off [OF assms(1,2) c]
  show "in_grid state (back_off r) c"
    using r c by (simp add: in_grid_def br)
  show "in_grid state r (back_off c)"
    using r c by (simp add: in_grid_def bc)
  show "in_grid state (back_off r) (back_off c)"
    using r c by (simp add: in_grid_def br bc)
  show "in_grid state (back_off r) (forward_off state c)"
    using r c by (simp add: in_grid_def br fc)
qed

lemma check_line_total:
  assumes "valid_state state" and "columns_fit_int state" and "in_grid state r c"
    and "- 1 \<le> sint inc_row" and "sint inc_row \<le> 1"
    and "- 1 \<le> sint inc_col" and "sint inc_col \<le> 1"
  shows "\<exists>b. check_line state r c inc_row inc_col line_steps player_id = Inr b"
proof -
  have "uint (grid_width state) \<le> INT_MAX"
    using assms(2) by (simp add: columns_fit_int_def line_offset_def line_len_def)
  moreover have "uint line_steps \<le> INT_MAX"
    by (simp add: line_steps_def line_len_def INT_MAX_def)
  moreover have "0 \<le> sint (0 :: c_int)" by simp
  ultimately show ?thesis
    unfolding check_line_def
    by (intro check_line_loop_total assms)
qed

lemma is_terminal_total:
  assumes "valid_state state" and "columns_fit_int state"
    and "history state \<noteq> []" and "last (history state) = (r, c, player_id)"
    and "in_grid state r c"
  shows "is_terminal state = Inr None \<or> is_terminal state = Inr (Some player_id)"
proof -
  note starts = in_grid_starts [OF assms(1,2,5)]
  obtain b1 where b1: "check_line state (back_off r) c 1 0 line_steps player_id = Inr b1"
    using check_line_total [OF assms(1,2) starts(1), of 1 0] by auto
  obtain b2 where b2: "check_line state r (back_off c) 0 1 line_steps player_id = Inr b2"
    using check_line_total [OF assms(1,2) starts(2), of 0 1] by auto
  obtain b3 where b3: "check_line state (back_off r) (back_off c) 1 1 line_steps player_id = Inr b3"
    using check_line_total [OF assms(1,2) starts(3), of 1 1] by auto
  obtain b4 where b4: "check_line state (back_off r) (forward_off state c) 1 (- 1) line_steps
                         player_id = Inr b4"
    using check_line_total [OF assms(1,2) starts(4), of 1 "- 1"] by auto
  show ?thesis
    using assms(3,4) by (simp add: is_terminal_def b1 b2 b3 b4 split: bool.splits)
qed

section \<open>Counting tokens\<close>

lemma occupied_in_row_update:
  assumes "c < length row" and "row ! c = EMPTY_COLOR" and "v \<noteq> EMPTY_COLOR"
  shows "occupied_in_row (row[c := v]) = Suc (occupied_in_row row)"
proof -
  let ?P = "\<lambda>v. v \<noteq> EMPTY_COLOR"
  have "row = take c row @ row ! c # drop (Suc c) row"
    using assms(1) by (rule id_take_nth_drop)
  then have "filter ?P row = filter ?P (take c row @ row ! c # drop (Suc c) row)"
    by (rule arg_cong)
  then have a: "filter ?P row = filter ?P (take c row) @ filter ?P (drop (Suc c) row)"
    using assms(2) by simp
  have "row[c := v] = take c row @ v # drop (Suc c) row"
    using assms(1) by (rule upd_conv_take_nth_drop)
  then have b: "filter ?P (row[c := v]) = filter ?P (take c row) @ v # filter ?P (drop (Suc c) row)"
    using assms(3) by simp
  show ?thesis
    unfolding occupied_in_row_def a b by simp
qed

lemma sum_list_map_update:
  fixes f :: "'a \<Rightarrow> nat"
  assumes "r < length xs"
  shows "sum_list (map f (xs[r := y])) + f (xs ! r) = sum_list (map f xs) + f y"
proof -
  have "xs = take r xs @ xs ! r # drop (Suc r) xs"
    using assms by (rule id_take_nth_drop)
  then have "sum_list (map f xs) = sum_list (map f (take r xs @ xs ! r # drop (Suc r) xs))"
    by (rule arg_cong)
  then have a: "sum_list (map f xs) = sum_list (map f (take r xs)) + f (xs ! r) + sum_list (map f (drop (Suc r) xs))"
    by simp
  have "xs[r := y] = take r xs @ y # drop (Suc r) xs"
    using assms by (rule upd_conv_take_nth_drop)
  then have b: "sum_list (map f (xs[r := y])) = sum_list (map f (take r xs)) + f y + sum_list (map f (drop (Suc r) xs))"
    by simp
  show ?thesis using a b by simp
qed

lemma occupied_update:
  assumes "r < length (grid state)" and "c < length (grid state ! r)"
    and "grid state ! r ! c = EMPTY_COLOR" and "v \<noteq> EMPTY_COLOR"
  shows "occupied (state\<lparr>grid := (grid state)[r := (grid state ! r)[c := v]], history := hs\<rparr>)
           = Suc (occupied state)"
  using sum_list_map_update [OF assms(1), of occupied_in_row "(grid state ! r)[c := v]"]
    occupied_in_row_update [OF assms(2,3,4)]
  by (simp add: occupied_def)

lemma occupied_in_row_le: "occupied_in_row row \<le> length row"
  by (simp add: occupied_in_row_def)

lemma sum_list_le_times:
  fixes f :: "'a \<Rightarrow> nat"
  assumes "\<forall>x\<in>set xs. f x \<le> n"
  shows "sum_list (map f xs) \<le> length xs * n"
  using assms by (induction xs) auto

lemma occupied_le:
  assumes "valid_state state"
  shows "occupied state \<le> unat (grid_width state) * unat (grid_height state)"
proof -
  have "\<forall>row\<in>set (grid state). length row = unat (grid_width state)"
    using assms by (simp add: valid_state_def list_all_iff)
  then have "\<forall>row\<in>set (grid state). occupied_in_row row \<le> unat (grid_width state)"
    using occupied_in_row_le by metis
  then have "occupied state \<le> length (grid state) * unat (grid_width state)"
    unfolding occupied_def by (rule sum_list_le_times)
  then show ?thesis
    using assms by (simp add: valid_state_def mult.commute)
qed

lemma make_turn_counted:
  assumes "counted state" and "player_id \<noteq> EMPTY_COLOR"
  shows "\<exists>msg state'. make_turn state col_i player_id = Inr (msg, state') \<and> counted state'
           \<and> grid_width state' = grid_width state \<and> grid_height state' = grid_height state"
proof (cases "grid_width state \<le> col_i")
  case True
  then show ?thesis using assms(1) by (simp add: make_turn_out_of_range)
next
  case False
  then have lt: "col_i < grid_width state" by simp
  have v: "valid_state state" using assms(1) by (simp add: counted_def)
  show ?thesis
  proof (cases "lowest_empty_row state (unat col_i)")
    case None
    then show ?thesis using assms(1) by (simp add: make_turn_eq [OF v lt])
  next
    case (Some r)
    have r: "r < unat (grid_height state)"
      and e: "cell_at state r (unat col_i) = EMPTY_COLOR"
      using Some by (simp_all add: lowest_empty_row_def lowest_empty_below_Some)
    have len: "r < length (grid state)"
      using v r by (simp add: valid_state_def)
    have "\<forall>i<length (grid state). length (grid state ! i) = unat (grid_width state)"
      using v by (simp add: valid_state_def list_all_length)
    then have c: "unat col_i < length (grid state ! r)"
      using len lt by (simp add: word_less_nat_alt)
    let ?s = "state\<lparr>grid := (grid state)[r := (grid state ! r)[unat col_i := player_id]],
                   history := history state @ [(to_int (of_nat r), to_int col_i, player_id)]\<rparr>"
    have "occupied ?s = Suc (occupied state)"
      using len c e [unfolded cell_at_def] assms(2) by (rule occupied_update)
    moreover have "valid_state ?s"
      using v by (rule valid_state_update)
    ultimately have "counted ?s"
      using assms(1) by (simp add: counted_def)
    then show ?thesis
      by (simp add: make_turn_eq [OF v lt] Some)
  qed
qed

lemma run_calls_counted:
  assumes "counted state" and "list_all (\<lambda>call. snd call \<noteq> EMPTY_COLOR) calls"
  shows "\<exists>state'. run_calls state calls = Inr state' \<and> counted state'
            \<and> grid_width state' = grid_width state \<and> grid_height state' = grid_height state"
  using assms
proof (induction calls arbitrary: state)
  case Nil
  then show ?case by simp
next
  case (Cons call calls)
  obtain msg s1 where m: "make_turn state (fst call) (snd call) = Inr (msg, s1)" and c: "counted s1"
    and d: "grid_width s1 = grid_width state" "grid_height s1 = grid_height state"
    using make_turn_counted [OF Cons.prems(1), of "snd call" "fst call"] Cons.prems(2) by auto
  show ?case
    using Cons.IH [OF c] Cons.prems(2) m d by simp
qed

section \<open>Evaluation of concrete games\<close>

lemma ucast_minus_one: "(ucast (- 1 :: 64 word) :: 32 word) = - 1"
proof -
  have "(ucast (word_of_int (- 1) :: 64 word) :: 32 word) = word_of_int (- 1)"
    by (rule ucast_down_wi) (simp add: is_down)
  then show ?thesis by simp
qed

lemmas minus_one_simps = ucast_minus_one unsigned_minus_1_eq_mask mask_eq_exp_minus_1

lemmas model_defs =
  make_turn_def trace_row_coordinate_def trace_row_loop.simps cell_def set_cell_def
  int_add_def to_int_def to_size_t_def INT_MIN_def INT_MAX_def EMPTY_COLOR_def
  word_sle_eq word_sless_alt check_line_def check_line_loop.simps is_terminal_def
  back_off_def forward_off_def int_max_def int_min_def line_len_def line_offset_def
  line_steps_def column_range_error_def column_full_error_def word_le_def word_less_def

lemma init_state_10: "init_state 10 10 = Inr (Some board_10)"
  by (simp add: init_state_eq board_10_def INT_MAX_def vector_max_size_def)

lemma board_10_rows:
  "grid board_10 =
     [[0, 0, 0, 0, 0, 0, 0, 0, 0, 0], [0, 0, 0, 0, 0, 0, 0, 0, 0, 0],
      [0, 0, 0, 0, 0, 0, 0, 0, 0, 0], [0, 0, 0, 0, 0, 0, 0, 0, 0, 0],
      [0, 0, 0, 0, 0, 0, 0, 0, 0, 0], [0, 0, 0, 0, 0, 0, 0, 0, 0, 0],
      [0, 0, 0, 0, 0, 0, 0, 0, 0, 0], [0, 0, 0, 0, 0, 0, 0, 0, 0, 0],
      [0, 0, 0, 0, 0, 0, 0, 0, 0, 0], [0, 0, 0, 0, 0, 0, 0, 0, 0, 0]]"
  by (simp add: board_10_def EMPTY_COLOR_def numeral_eq_Suc)

lemma board_10_literal:
  "board_10 =
     \<lparr>grid =
        [[0, 0, 0, 0, 0, 0, 0, 0, 0, 0], [0, 0, 0, 0, 0, 0, 0, 0, 0, 0],
         [0, 0, 0, 0, 0, 0, 0, 0, 0, 0], [0, 0, 0, 0, 0, 0, 0, 0, 0, 0],
         [0, 0, 0, 0, 0, 0, 0, 0, 0, 0], [0, 0, 0, 0, 0, 0, 0, 0, 0, 0],
         [0, 0, 0, 0, 0, 0, 0, 0, 0, 0], [0, 0, 0, 0, 0, 0, 0, 0, 0, 0],
         [0, 0, 0, 0, 0, 0, 0, 0, 0, 0], [0, 0, 0, 0, 0, 0, 0, 0, 0, 0]],
      grid_width = 10, grid_height = 10, history = []\<rparr>"
  using board_10_rows by (simp add: board_10_def)

lemma run_missed_calls: "run_calls board_10 missed_calls = Inr missed_state"
  unfolding board_10_literal missed_calls_def missed_state_def
  by (simp add: model_defs)

lemma no_winner_before_last_call:
  "list_all
     (\<lambda>n. case run_calls board_10 (take n missed_calls) of
            Inl e \<Rightarrow> False
          | Inr state \<Rightarrow> is_terminal state = Inr None)
     [0, 1, 2, 3, 4, 5, 6, 7, 8, 9, 10]"
  unfolding board_10_literal missed_calls_def
  by (simp add: model_defs minus_one_simps)

lemma missed_state_not_terminal: "is_terminal missed_state = Inr None"
  unfolding missed_state_def by (simp add: model_defs)

lemma missed_state_completes_four: "completes_four missed_state"
  unfolding missed_state_def
  by (simp add: completes_four_def run_of_four_def cell_at_def)

lemma small_state_valid: "valid_state small_state"
  by (simp add: small_state_def valid_state_def INT_MAX_def)

lemma single_cell_valid: "valid_state single_cell"
  by (simp add: single_cell_def valid_state_def INT_MAX_def)

lemma wide_state_valid: "valid_state wide_state"
  by (simp add: wide_state_def valid_state_def INT_MAX_def)

lemma four_in_row_state_valid: "valid_state four_in_row_state"
  by (simp add: four_in_row_state_def valid_state_def INT_MAX_def)

lemma four_in_row_state_fits: "columns_fit_int four_in_row_state"
  by (simp add: four_in_row_state_def columns_fit_int_def INT_MAX_def line_offset_def line_len_def)

lemma three_in_row_state_valid: "valid_state three_in_row_state"
  by (simp add: three_in_row_state_def valid_state_def INT_MAX_def)

lemma three_in_row_state_fits: "columns_fit_int three_in_row_state"
  by (simp add: three_in_row_state_def columns_fit_int_def INT_MAX_def line_offset_def
      line_len_def)

lemma bottom_row_games:
  "run_calls board_10 [(0, 1), (9, 2), (1, 1), (9, 2), (2, 1)] = Inr three_in_row_state"
  "run_calls three_in_row_state [(8, 2), (3, 1)] = Inr four_in_row_state"
  unfolding board_10_literal three_in_row_state_def four_in_row_state_def
  by (simp_all add: model_defs)

section \<open>Scans on the ten by ten board\<close>

lemma in_grid_10:
  assumes "grid_width state = 10" and "grid_height state = 10"
  shows "in_grid state r c \<longleftrightarrow> 0 \<le> sint r \<and> sint r < 10 \<and> 0 \<le> sint c \<and> sint c < 10"
  using assms by (simp add: in_grid_def)

lemma back_off_small:
  "back_off 0 = 0" "back_off 1 = 0" "back_off 2 = 0" "back_off 3 = 0" "back_off 9 = 6"
  by (simp_all add: back_off_def to_int_minus to_int_line_offset int_max_def word_sless_alt)

lemma forward_off_10:
  assumes "grid_width state = 10"
  shows "forward_off state 0 = 3" "forward_off state 1 = 4" "forward_off state 2 = 5"
  using assms
  by (simp_all add: forward_off_def int_min_def word_sless_alt to_int_def to_size_t_def
      line_offset_def line_len_def)

lemmas scan_simps =
  check_line_def check_line_loop_step in_grid_10 to_size_t_def line_steps_def line_len_def
  int_add_def INT_MIN_def INT_MAX_def Let_def

lemma horizontal_four:
  assumes "valid_state state" and "grid_width state = 10" and "grid_height state = 10"
    and "cell_at state 9 0 = p" and "cell_at state 9 1 = p"
    and "cell_at state 9 2 = p" and "cell_at state 9 3 = p"
  shows "check_line state 9 0 0 1 line_steps p = Inr True"
  using assms by (simp add: scan_simps)

lemma horizontal_three:
  assumes "valid_state state" and "grid_width state = 10" and "grid_height state = 10"
    and "cell_at state 9 0 = p" and "cell_at state 9 1 = p"
    and "cell_at state 9 2 = p" and "cell_at state 9 3 \<noteq> p"
  shows "check_line state 9 0 0 1 line_steps p = Inr False"
  using assms by (simp add: scan_simps)

lemma vertical_one:
  assumes "valid_state state" and "grid_width state = 10" and "grid_height state = 10"
    and "c = 0 \<or> c = 1 \<or> c = 2" and "cell_at state 8 (nat (sint c)) \<noteq> p"
  shows "check_line state 6 c 1 0 line_steps p = Inr False"
  using assms by (auto simp add: scan_simps)

lemma diagonal_one:
  assumes "valid_state state" and "grid_width state = 10" and "grid_height state = 10"
    and "cell_at state 9 3 \<noteq> p"
  shows "check_line state 6 0 1 1 line_steps p = Inr False"
  using assms by (simp add: scan_simps)

lemma diagonal_two:
  assumes "valid_state state" and "grid_width state = 10" and "grid_height state = 10"
    and "c = 3 \<or> c = 4 \<or> c = 5" and "cell_at state 8 (nat (sint c - 2)) \<noteq> p"
  shows "check_line state 6 c 1 (- 1) line_steps p = Inr False"
  using assms by (auto simp add: scan_simps)

section \<open>More about make_turn\<close>

lemma error_messages_differ: "column_range_error \<noteq> column_full_error"
  by (simp add: column_range_error_def column_full_error_def)

lemma sint_to_int_row:
  assumes "valid_state state" and "r < unat (grid_height state)"
  shows "sint (to_int (of_nat r :: size_t)) = int r"
proof -
  have u: "unat (of_nat r :: size_t) = r"
    using assms(2) by (rule unat_of_nat_row)
  have "r < nat (uint (grid_height state))"
    using assms(2) by (simp only: unat_eq_nat_uint)
  then have "int r < uint (grid_height state)"
    by linarith
  moreover have "uint (grid_height state) \<le> INT_MAX"
    using assms(1) by (simp add: valid_state_def)
  ultimately have "int r \<le> INT_MAX"
    by linarith
  then have "uint (of_nat r :: size_t) \<le> INT_MAX"
    by (simp only: uint_nat u)
  then have "sint (to_int (of_nat r :: size_t)) = uint (of_nat r :: size_t)"
    by (rule sint_to_int)
  then show ?thesis
    by (simp only: uint_nat u)
qed

lemma lowest_empty_row_history:
  "lowest_empty_row (state\<lparr>history := hs\<rparr>) c = lowest_empty_row state c"
  by (simp add: lowest_empty_row_def lowest_empty_below_def cell_at_def)

lemma valid_state_history:
  "valid_state (state\<lparr>history := hs\<rparr>) = valid_state state"
  by (simp add: valid_state_def)

lemma make_turn_empty_color:
  assumes "valid_state state" and "col_i < grid_width state"
    and "lowest_empty_row state (unat col_i) = Some row"
  shows "make_turn state col_i EMPTY_COLOR =
           Inr (None, state\<lparr>history :=
                  history state @ [(to_int (of_nat row), to_int col_i, EMPTY_COLOR)]\<rparr>)"
proof -
  have e: "grid state ! row ! unat col_i = EMPTY_COLOR"
    using assms(3) by (simp add: lowest_empty_row_def lowest_empty_below_Some cell_at_def)
  have "(grid state)[row := (grid state ! row)[unat col_i := EMPTY_COLOR]] = grid state"
    by (metis e list_update_id)
  then show ?thesis
    by (simp add: make_turn_eq [OF assms(1,2)] assms(3))
qed

lemma run_calls_empty_color:
  assumes "valid_state state" and "col_i < grid_width state"
    and "lowest_empty_row state (unat col_i) = Some row"
  shows "run_calls state (replicate n (col_i, EMPTY_COLOR)) =
           Inr (state\<lparr>history :=
                  history state @ replicate n (to_int (of_nat row), to_int col_i, EMPTY_COLOR)\<rparr>)"
  using assms
proof (induction n arbitrary: state)
  case 0
  then show ?case by simp
next
  case (Suc n)
  let ?e = "(to_int (of_nat row), to_int col_i, EMPTY_COLOR)"
  let ?s = "state\<lparr>history := history state @ [?e]\<rparr>"
  have m: "make_turn state col_i EMPTY_COLOR = Inr (None, ?s)"
    using Suc.prems by (rule make_turn_empty_color)
  have "run_calls ?s (replicate n (col_i, EMPTY_COLOR)) =
          Inr (?s\<lparr>history := history ?s @ replicate n ?e\<rparr>)"
    using Suc.prems by (intro Suc.IH) (simp_all add: valid_state_history lowest_empty_row_history)
  then show ?case
    by (simp add: m replicate_app_Cons_same)
qed

lemma occupied_init:
  "occupied \<lparr>grid = replicate h (replicate w EMPTY_COLOR), grid_width = gw, grid_height = gh,
             history = hs\<rparr> = 0"
  by (simp add: occupied_def occupied_in_row_def)

lemma init_state_counted:
  assumes "init_state width height = Inr (Some state)"
  shows "counted state \<and> grid_width state = width \<and> grid_height state = height"
proof -
  have "state = \<lparr>grid = replicate (unat height) (replicate (unat width) EMPTY_COLOR),
                 grid_width = width, grid_height = height, history = []\<rparr>"
    using assms by (auto simp: init_state_eq split: if_splits)
  then show ?thesis
    using init_state_valid [OF assms] by (simp add: counted_def occupied_init)
qed

lemma check_line_loop_leaves_grid:
  assumes "valid_state state" and "in_grid state r0 c0" and "to_size_t step_i < steps"
    and "(if cell_at state (nat (sint r0)) (nat (sint c0)) = p then tc + 1 else 0) \<noteq> line_len"
    and "int_add c0 inc_col = Inr c1" and "int_add r0 inc_row = Inr r1"
    and "\<not> in_grid state r1 c1"
  shows "check_line_loop state inc_row inc_col steps p step_i tc r0 c0 = Inr False"
  using assms(3-7) by (simp add: check_line_loop_step [OF assms(1,2)] Let_def)

lemma check_line_outside:
  assumes "valid_state state" and "uint (grid_width state) \<le> INT_MAX"
    and "\<not> in_grid state r0 c0" and "0 < steps"
  shows "check_line state r0 c0 inc_row inc_col steps p = Inl OutOfBounds"
proof -
  have "to_size_t 0 < steps"
    using assms(4) by (simp add: to_size_t_def)
  then show ?thesis
    unfolding check_line_def
    by (subst check_line_loop.simps) (simp add: cell_not_in_grid [OF assms(1,2,3)])
qed

section \<open>Boards whose coordinates fit an int\<close>

text \<open>
  What the code does where no \<open>int\<close> overflows. For every \<open>height\<close> of at most
  \<open>INT_MAX\<close> and every \<open>width\<close> a vector can have, \<open>init_state\<close> returns a state if and
  only if both are positive, and the invalid-dimensions result otherwise; a returned state
  has \<open>height\<close> rows of \<open>width\<close> empty cells, an empty history and the dimensions it was
  asked for.
\<close>

lemma init_state_spec:
  assumes "uint height \<le> INT_MAX" and "unat width \<le> vector_max_size"
  shows "((\<exists>state. init_state width height = Inr (Some state)) \<longleftrightarrow> 0 < width \<and> 0 < height) \<and>
    (init_state width height = Inr None \<longleftrightarrow> \<not> (0 < width \<and> 0 < height)) \<and>
    (\<forall>state. init_state width height = Inr (Some state) \<longrightarrow>
       length (grid state) = unat height \<and>
       list_all (\<lambda>row. length row = unat width \<and> list_all (\<lambda>v. v = EMPTY_COLOR) row)
         (grid state) \<and>
       history state = [] \<and> grid_width state = width \<and> grid_height state = height)"
  using assms
  by (auto simp: init_state_eq word_greater_zero_iff list_all_length)

lemma init_state_spec_witness:
  "uint (10 :: size_t) \<le> INT_MAX \<and> unat (10 :: size_t) \<le> vector_max_size \<and>
   init_state 10 10 = Inr (Some board_10) \<and>
   length (grid board_10) = 10 \<and> history board_10 = [] \<and>
   grid_width board_10 = 10 \<and> grid_height board_10 = 10 \<and>
   uint (0 :: size_t) \<le> INT_MAX \<and> init_state 10 0 = Inr None"
proof -
  have h: "uint (10 :: size_t) \<le> INT_MAX" and z: "uint (0 :: size_t) \<le> INT_MAX"
    and w: "unat (10 :: size_t) \<le> vector_max_size"
    by (simp_all add: INT_MAX_def vector_max_size_def)
  show ?thesis
    using h z w init_state_spec [OF h w] init_state_spec [OF z w] init_state_10
    by (simp add: board_10_def)
qed

text \<open>
  In a valid state a successful \<open>make_turn\<close> sets the cell at the landing row of the
  column and no other, and appends one entry with the row, the column narrowed to \<open>int\<close>
  and the player id; the row is always exact, the column when it is at most \<open>INT_MAX\<close>.
  A call that returns a message leaves the state unchanged.
\<close>

lemma make_turn_frame:
  assumes "valid_state state"
  shows "(make_turn state col_i player_id = Inr (None, state') \<longrightarrow>
      (\<exists>row. row < unat (grid_height state) \<and> unat col_i < unat (grid_width state) \<and>
         lowest_empty_row state (unat col_i) = Some row \<and>
         cell_at state' row (unat col_i) = player_id \<and>
         (\<forall>r c. (r, c) \<noteq> (row, unat col_i) \<longrightarrow> cell_at state' r c = cell_at state r c) \<and>
         history state' = history state @ [(to_int (of_nat row), to_int col_i, player_id)] \<and>
         sint (to_int (of_nat row :: size_t)) = int row \<and>
         (uint col_i \<le> INT_MAX \<longrightarrow> sint (to_int col_i) = uint col_i) \<and>
         length (history state') = length (history state) + 1 \<and>
         take (length (history state)) (history state') = history state \<and>
         grid_width state' = grid_width state \<and> grid_height state' = grid_height state)) \<and>
    (\<forall>msg. make_turn state col_i player_id = Inr (Some msg, state') \<longrightarrow>
       state' = state \<and> length (history state') = length (history state))"
proof (cases "grid_width state \<le> col_i")
  case True
  then show ?thesis by (simp add: make_turn_out_of_range)
next
  case False
  then have lt: "col_i < grid_width state" by simp
  then have c: "unat col_i < unat (grid_width state)"
    by (simp add: word_less_nat_alt)
  show ?thesis
  proof (cases "lowest_empty_row state (unat col_i)")
    case None
    then show ?thesis by (auto simp: make_turn_eq [OF assms lt])
  next
    case (Some row)
    have r: "row < unat (grid_height state)"
      using Some by (rule lowest_empty_row_bound)
    have len: "row < length (grid state)"
      using assms r by (simp add: valid_state_def)
    have "\<forall>i<length (grid state). length (grid state ! i) = unat (grid_width state)"
      using assms by (simp add: valid_state_def list_all_length)
    then have w: "unat col_i < length (grid state ! row)"
      using len c by simp
    let ?g = "(grid state)[row := (grid state ! row)[unat col_i := player_id]]"
    have here: "?g ! row ! unat col_i = player_id"
      using len w by simp
    have other: "?g ! r' ! c' = grid state ! r' ! c'" if "(r', c') \<noteq> (row, unat col_i)" for r' c'
    proof (cases "r' = row")
      case True
      then have "c' \<noteq> unat col_i" using that by simp
      then show ?thesis using True len by simp
    next
      case False
      then show ?thesis by simp
    qed
    show ?thesis
      using Some r c here other sint_to_int_row [OF assms r] sint_to_int [of col_i]
      by (auto simp: make_turn_eq [OF assms lt] cell_at_def)
  qed
qed

lemma make_turn_frame_witness:
  "valid_state small_state \<and>
   make_turn small_state 0 2 =
     Inr (None, small_state\<lparr>grid := [[2, 1], [1, 2]],
                             history := history small_state @ [(0, 0, 2)]\<rparr>) \<and>
   lowest_empty_row small_state (unat (0 :: size_t)) = Some 0 \<and>
   uint (0 :: size_t) \<le> INT_MAX \<and>
   length (history small_state @ [(0, 0, 2)]) = length (history small_state) + 1 \<and>
   make_turn small_state 1 2 = Inr (Some column_full_error, small_state)"
proof -
  have "lowest_empty_row small_state (unat (0 :: size_t)) = Some 0"
    by (simp add: small_state_def lowest_empty_row_def lowest_empty_below_def cell_at_def
        EMPTY_COLOR_def upt_rec)
  then show ?thesis
    using small_state_valid
      make_turn_frame [OF small_state_valid, of 0 2
        "small_state\<lparr>grid := [[2, 1], [1, 2]], history := history small_state @ [(0, 0, 2)]\<rparr>"]
      make_turn_frame [OF small_state_valid, of 1 2 small_state]
    by (simp add: small_state_def model_defs)
qed

text \<open>
  In a valid state, a turn of player id 0 on a column with an empty cell succeeds, leaves
  the grid as it is and appends an entry; any number of such turns succeed.
\<close>

lemma empty_color_turns:
  assumes "valid_state state" and "col_i < grid_width state"
    and "r < unat (grid_height state)" and "cell_at state r (unat col_i) = EMPTY_COLOR"
  shows "\<exists>row. lowest_empty_row state (unat col_i) = Some row \<and>
     make_turn state col_i EMPTY_COLOR =
       Inr (None, state\<lparr>history :=
              history state @ [(to_int (of_nat row), to_int col_i, EMPTY_COLOR)]\<rparr>) \<and>
     grid (state\<lparr>history :=
              history state @ [(to_int (of_nat row), to_int col_i, EMPTY_COLOR)]\<rparr>) = grid state \<and>
     run_calls state (replicate n (col_i, EMPTY_COLOR)) =
       Inr (state\<lparr>history :=
              history state @ replicate n (to_int (of_nat row), to_int col_i, EMPTY_COLOR)\<rparr>)"
proof -
  have "lowest_empty_row state (unat col_i) \<noteq> None"
    using assms(3,4) by (auto simp: lowest_empty_row_def lowest_empty_below_None)
  then obtain row where row: "lowest_empty_row state (unat col_i) = Some row"
    by auto
  show ?thesis
    using row make_turn_empty_color [OF assms(1,2) row] run_calls_empty_color [OF assms(1,2) row]
    by simp
qed

lemma empty_color_turns_witness:
  "valid_state single_cell \<and> (0 :: size_t) < grid_width single_cell \<and>
   (0 :: nat) < unat (grid_height single_cell) \<and>
   cell_at single_cell 0 (unat (0 :: size_t)) = EMPTY_COLOR \<and>
   make_turn single_cell 0 EMPTY_COLOR = Inr (None, single_cell\<lparr>history := [(0, 0, 0)]\<rparr>) \<and>
   run_calls single_cell (replicate 2 (0, EMPTY_COLOR)) = Inr single_cell_twice \<and>
   unat (grid_height single_cell) < length (history single_cell_twice)"
proof -
  have w: "(0 :: size_t) < grid_width single_cell"
    and h: "(0 :: nat) < unat (grid_height single_cell)"
    and e: "cell_at single_cell 0 (unat (0 :: size_t)) = EMPTY_COLOR"
    by (simp_all add: single_cell_def cell_at_def EMPTY_COLOR_def)
  have "lowest_empty_row single_cell (unat (0 :: size_t)) = Some 0"
    by (simp add: single_cell_def lowest_empty_row_def lowest_empty_below_def cell_at_def
        EMPTY_COLOR_def)
  then show ?thesis
    using single_cell_valid w h e empty_color_turns [OF single_cell_valid w h e, of 2]
    by (simp add: single_cell_def single_cell_twice_def model_defs numeral_2_eq_2)
qed

text \<open>
  In a valid state whose last column index plus \<open>line_offset\<close> is at most \<open>INT_MAX\<close>,
  and whose last history entry is on the grid, \<open>is_terminal\<close> reads no cell outside the
  grid and overflows nowhere; a scan that starts on the grid never leaves it unnoticed.
\<close>

lemma is_terminal_in_bounds:
  assumes "valid_state state" and "columns_fit_int state"
    and "history state \<noteq> []" and "last (history state) = (r, c, player_id)"
    and "in_grid state r c"
  shows "(is_terminal state = Inr None \<or> is_terminal state = Inr (Some player_id)) \<and>
    (\<forall>r0 c0 inc_row inc_col steps p.
       in_grid state r0 c0 \<longrightarrow>
       check_line state r0 c0 inc_row inc_col steps p \<noteq> Inl OutOfBounds) \<and>
    (\<forall>r0 c0 r1 c1 inc_row inc_col steps p step_i tc.
       in_grid state r0 c0 \<and> to_size_t step_i < steps \<and>
       (if cell_at state (nat (sint r0)) (nat (sint c0)) = p then tc + 1 else 0) \<noteq> line_len \<and>
       int_add c0 inc_col = Inr c1 \<and> int_add r0 inc_row = Inr r1 \<and> \<not> in_grid state r1 c1 \<longrightarrow>
       check_line_loop state inc_row inc_col steps p step_i tc r0 c0 = Inr False)"
  using is_terminal_total [OF assms] check_line_loop_no_oob [OF assms(1)]
    check_line_loop_leaves_grid [OF assms(1)]
  by (auto simp: check_line_def)

lemma is_terminal_in_bounds_witness:
  "valid_state four_in_row_state \<and> columns_fit_int four_in_row_state \<and>
   history four_in_row_state \<noteq> [] \<and> last (history four_in_row_state) = (9, 3, 1) \<and>
   in_grid four_in_row_state 9 3 \<and>
   is_terminal four_in_row_state = Inr (Some 1) \<and>
   in_grid four_in_row_state 9 0 \<and>
   check_line four_in_row_state 9 0 0 (- 1) line_steps 1 = Inr False \<and>
   to_size_t 0 < line_steps \<and> int_add 0 (- 1) = Inr (- 1) \<and> int_add 9 0 = Inr 9 \<and>
   \<not> in_grid four_in_row_state 9 (- 1)"
proof -
  have h: "history four_in_row_state \<noteq> []"
    and l: "last (history four_in_row_state) = (9, 3, 1)"
    and i: "in_grid four_in_row_state 9 3"
    by (simp_all add: four_in_row_state_def in_grid_def)
  show ?thesis
    using four_in_row_state_valid four_in_row_state_fits h l i
      is_terminal_in_bounds [OF four_in_row_state_valid four_in_row_state_fits h l i]
    by (simp add: four_in_row_state_def in_grid_def model_defs)
qed

text \<open>
  \<open>check_line\<close> reads its start cell unchecked; under the same two conditions the four
  starts that \<open>is_terminal\<close> computes from a cell on the grid are on the grid.
\<close>

lemma check_line_precondition:
  assumes "valid_state state" and "columns_fit_int state"
  shows "(\<forall>r0 c0 inc_row inc_col steps p.
       \<not> in_grid state r0 c0 \<and> 0 < steps \<longrightarrow>
       check_line state r0 c0 inc_row inc_col steps p = Inl OutOfBounds) \<and>
    (\<forall>r0 c0 inc_row inc_col steps p.
       in_grid state r0 c0 \<longrightarrow>
       check_line state r0 c0 inc_row inc_col steps p \<noteq> Inl OutOfBounds) \<and>
    (\<forall>r c. in_grid state r c \<longrightarrow>
       in_grid state (back_off r) c \<and> in_grid state r (back_off c) \<and>
       in_grid state (back_off r) (back_off c) \<and>
       in_grid state (back_off r) (forward_off state c))"
proof -
  have w: "uint (grid_width state) \<le> INT_MAX"
    using assms(2) by (simp add: columns_fit_int_def line_offset_def line_len_def)
  show ?thesis
    using check_line_outside [OF assms(1) w] check_line_loop_no_oob [OF assms(1)]
      in_grid_starts [OF assms]
    by (auto simp: check_line_def)
qed

lemma check_line_precondition_witness:
  "valid_state three_in_row_state \<and> columns_fit_int three_in_row_state \<and>
   \<not> in_grid three_in_row_state 10 0 \<and> (0 :: size_t) < line_steps \<and>
   check_line three_in_row_state 10 0 1 0 line_steps 1 = Inl OutOfBounds \<and>
   in_grid three_in_row_state 9 2 \<and>
   back_off 9 = 6 \<and> back_off 2 = 0 \<and> forward_off three_in_row_state 2 = 5 \<and>
   in_grid three_in_row_state 6 2 \<and> in_grid three_in_row_state 9 0 \<and>
   in_grid three_in_row_state 6 0 \<and> in_grid three_in_row_state 6 5 \<and>
   check_line three_in_row_state 6 5 1 (- 1) line_steps 1 = Inr False"
proof -
  note t = check_line_precondition [OF three_in_row_state_valid three_in_row_state_fits]
  have out: "\<not> in_grid three_in_row_state 10 0" and pos: "(0 :: size_t) < line_steps"
    and inn: "in_grid three_in_row_state 9 2"
    by (simp_all add: three_in_row_state_def in_grid_def line_steps_def line_len_def)
  have offs: "back_off 9 = 6" "back_off 2 = 0" "forward_off three_in_row_state 2 = 5"
    by (simp_all add: three_in_row_state_def model_defs minus_one_simps)
  have a: "check_line three_in_row_state 10 0 1 0 line_steps 1 = Inl OutOfBounds"
    using t out pos by blast
  have b: "in_grid three_in_row_state (back_off 9) 2 \<and>
           in_grid three_in_row_state 9 (back_off 2) \<and>
           in_grid three_in_row_state (back_off 9) (back_off 2) \<and>
           in_grid three_in_row_state (back_off 9) (forward_off three_in_row_state 2)"
    using t inn by blast
  have c: "check_line three_in_row_state 6 5 1 (- 1) line_steps 1 = Inr False"
    by (simp add: three_in_row_state_def model_defs)
  show ?thesis
    using three_in_row_state_valid three_in_row_state_fits out pos inn a b c
    by (simp add: offs)
qed

lemma giant_board_valid: "valid_state giant_board"
  by (simp add: giant_board_def valid_state_def INT_MAX_def)

lemma giant_board_lowest_empty:
  "lowest_empty_row giant_board (unat (2147483649 :: size_t)) = Some 0"
  by (simp add: giant_board_def lowest_empty_row_def lowest_empty_below_def cell_at_def)

section \<open>The claims\<close>

text \<open>
  C1. Claim: whenever the token just placed completes a run of four tokens of one player
  on the vertical, the horizontal or a diagonal line through its cell, \<open>is_terminal\<close>
  returns that player. The code does not do this. Both coordinates of a diagonal scan's
  start are clamped on their own, so near an edge the scan leaves the diagonal of the
  placed cell. In the game \<open>missed_calls\<close>, played from the empty ten by ten board with
  successful turns only and no winner reported on the way, the last token lands on (7,1)
  and completes the diagonal (6,0), (7,1), (8,2), (9,3) of player 1; the scan starts at
  (4,0) and \<open>is_terminal\<close> reports no winner.
\<close>

theorem diagonal_win_missed:
  "init_state 10 10 = Inr (Some board_10) \<and>
   run_calls board_10 missed_calls = Inr missed_state \<and>
   list_all
     (\<lambda>n. case run_calls board_10 (take n missed_calls) of
            Inl e \<Rightarrow> False
          | Inr state \<Rightarrow> is_terminal state = Inr None)
     [0, 1, 2, 3, 4, 5, 6, 7, 8, 9, 10] \<and>
   last (history missed_state) = (7, 1, 1) \<and>
   cell_at missed_state 6 0 = 1 \<and> cell_at missed_state 7 1 = 1 \<and>
   cell_at missed_state 8 2 = 1 \<and> cell_at missed_state 9 3 = 1 \<and>
   completes_four missed_state \<and>
   is_terminal missed_state = Inr None"
proof -
  have "last (history missed_state) = (7, 1, 1)"
    and "cell_at missed_state 6 0 = 1" and "cell_at missed_state 7 1 = 1"
    and "cell_at missed_state 8 2 = 1" and "cell_at missed_state 9 3 = 1"
    by (simp_all add: missed_state_def cell_at_def)
  then show ?thesis
    using init_state_10 run_missed_calls no_winner_before_last_call
      missed_state_not_terminal missed_state_completes_four
    by blast
qed

text \<open>
  C2. On the ten by ten board, let the last history entry be a token of player \<open>p\<close> in the
  bottom row (row 9), and let columns 0, 1 and 2 of that row hold tokens of \<open>p\<close>. If
  column 3 holds one too and the last token is any of the four, \<open>is_terminal\<close> returns
  \<open>p\<close>. If column 3 does not, the last token is one of the three, and none of the cells
  next to the three tokens (row 8, columns 0 to 3) belongs to \<open>p\<close>, \<open>is_terminal\<close> returns
  no winner.
\<close>

theorem bottom_row_win:
  assumes "valid_state state" and "grid_width state = 10" and "grid_height state = 10"
    and "history state \<noteq> []" and "last (history state) = (9, c, p)"
    and "cell_at state 9 0 = p" and "cell_at state 9 1 = p" and "cell_at state 9 2 = p"
  shows "(cell_at state 9 3 = p \<and> (c = 0 \<or> c = 1 \<or> c = 2 \<or> c = 3) \<longrightarrow>
            is_terminal state = Inr (Some p)) \<and>
         (cell_at state 9 3 \<noteq> p \<and> (c = 0 \<or> c = 1 \<or> c = 2) \<and>
          cell_at state 8 0 \<noteq> p \<and> cell_at state 8 1 \<noteq> p \<and>
          cell_at state 8 2 \<noteq> p \<and> cell_at state 8 3 \<noteq> p \<longrightarrow>
            is_terminal state = Inr None)"
proof (intro conjI impI)
  note dims = assms(2,3)
  have fit: "columns_fit_int state"
    using dims by (simp add: columns_fit_int_def INT_MAX_def line_offset_def line_len_def)
  {
    assume a: "cell_at state 9 3 = p \<and> (c = 0 \<or> c = 1 \<or> c = 2 \<or> c = 3)"
    then have b: "back_off c = 0"
      using back_off_small by auto
    have "in_grid state 9 c"
      using a by (auto simp: in_grid_10 [OF dims])
    then have "in_grid state (back_off 9) c"
      by (rule in_grid_starts(1) [OF assms(1) fit])
    then obtain b1 where b1: "check_line state (back_off 9) c 1 0 line_steps p = Inr b1"
      using check_line_total [OF assms(1) fit, of "back_off 9" c 1 0 p] by auto
    have "check_line state 9 0 0 1 line_steps p = Inr True"
      using assms(1) dims assms(6-8) a by (intro horizontal_four) simp_all
    then show "is_terminal state = Inr (Some p)"
      using assms(4,5) by (simp add: is_terminal_def b b1 split: bool.splits)
  }
  {
    assume a: "cell_at state 9 3 \<noteq> p \<and> (c = 0 \<or> c = 1 \<or> c = 2) \<and>
          cell_at state 8 0 \<noteq> p \<and> cell_at state 8 1 \<noteq> p \<and>
          cell_at state 8 2 \<noteq> p \<and> cell_at state 8 3 \<noteq> p"
    then have c: "c = 0 \<or> c = 1 \<or> c = 2" by simp
    then have b: "back_off c = 0"
      using back_off_small by auto
    have f: "forward_off state c = 3 \<or> forward_off state c = 4 \<or> forward_off state c = 5"
      and fc: "cell_at state 8 (nat (sint (forward_off state c) - 2)) \<noteq> p"
      and vc: "cell_at state 8 (nat (sint c)) \<noteq> p"
      using c a forward_off_10 [OF dims(1)] by auto
    have v: "check_line state 6 c 1 0 line_steps p = Inr False"
      using assms(1) dims c vc by (rule vertical_one)
    have h: "check_line state 9 0 0 1 line_steps p = Inr False"
      using assms(1) dims assms(6-8) a by (intro horizontal_three) simp_all
    have d1: "check_line state 6 0 1 1 line_steps p = Inr False"
      using assms(1) dims a by (intro diagonal_one) simp_all
    have d2: "check_line state 6 (forward_off state c) 1 (- 1) line_steps p = Inr False"
      using assms(1) dims f fc by (rule diagonal_two)
    show "is_terminal state = Inr None"
      using assms(4,5) by (simp add: is_terminal_def b back_off_small v h d1 d2)
  }
qed

theorem bottom_row_win_witness:
  "valid_state four_in_row_state \<and>
   grid_width four_in_row_state = 10 \<and> grid_height four_in_row_state = 10 \<and>
   history four_in_row_state \<noteq> [] \<and> last (history four_in_row_state) = (9, 3, 1) \<and>
   cell_at four_in_row_state 9 0 = 1 \<and> cell_at four_in_row_state 9 1 = 1 \<and>
   cell_at four_in_row_state 9 2 = 1 \<and> cell_at four_in_row_state 9 3 = 1 \<and>
   is_terminal four_in_row_state = Inr (Some 1) \<and>
   valid_state three_in_row_state \<and>
   grid_width three_in_row_state = 10 \<and> grid_height three_in_row_state = 10 \<and>
   history three_in_row_state \<noteq> [] \<and> last (history three_in_row_state) = (9, 2, 1) \<and>
   cell_at three_in_row_state 9 0 = 1 \<and> cell_at three_in_row_state 9 1 = 1 \<and>
   cell_at three_in_row_state 9 2 = 1 \<and> cell_at three_in_row_state 9 3 \<noteq> 1 \<and>
   cell_at three_in_row_state 8 0 \<noteq> 1 \<and> cell_at three_in_row_state 8 1 \<noteq> 1 \<and>
   cell_at three_in_row_state 8 2 \<noteq> 1 \<and> cell_at three_in_row_state 8 3 \<noteq> 1 \<and>
   is_terminal three_in_row_state = Inr None"
proof -
  have f: "grid_width four_in_row_state = 10" "grid_height four_in_row_state = 10"
    "history four_in_row_state \<noteq> []" "last (history four_in_row_state) = (9, 3, 1)"
    "cell_at four_in_row_state 9 0 = 1" "cell_at four_in_row_state 9 1 = 1"
    "cell_at four_in_row_state 9 2 = 1" "cell_at four_in_row_state 9 3 = 1"
    by (simp_all add: four_in_row_state_def cell_at_def)
  have t: "grid_width three_in_row_state = 10" "grid_height three_in_row_state = 10"
    "history three_in_row_state \<noteq> []" "last (history three_in_row_state) = (9, 2, 1)"
    "cell_at three_in_row_state 9 0 = 1" "cell_at three_in_row_state 9 1 = 1"
    "cell_at three_in_row_state 9 2 = 1"
    by (simp_all add: three_in_row_state_def cell_at_def)
  have t': "cell_at three_in_row_state 9 3 \<noteq> 1"
    "cell_at three_in_row_state 8 0 \<noteq> 1" "cell_at three_in_row_state 8 1 \<noteq> 1"
    "cell_at three_in_row_state 8 2 \<noteq> 1" "cell_at three_in_row_state 8 3 \<noteq> 1"
    by (simp_all add: three_in_row_state_def cell_at_def)
  have a: "is_terminal four_in_row_state = Inr (Some 1)"
    using bottom_row_win [OF four_in_row_state_valid f(1-7)] f(8) by simp
  have b: "is_terminal three_in_row_state = Inr None"
    using bottom_row_win [OF three_in_row_state_valid t] t' by simp
  show ?thesis
    using four_in_row_state_valid three_in_row_state_valid f t t' a b by simp
qed

text \<open>
  C3. Claim: for all \<open>width\<close> and \<open>height\<close>, \<open>init_state\<close> returns a state if and only if
  both are positive, and the state has exactly \<open>height\<close> rows. The code fails this for
  tall boards. The loop that builds the rows counts them in an \<open>int\<close> (\<open>auto i = 0\<close>)
  and compares the counter with the \<open>size_t\<close> height. For one column and 2147483649 rows
  the increment of the counter overflows after 2147483648 rows: the behaviour is undefined,
  and where the increment wraps around the loop ends there, one row short of \<open>height\<close>.
\<close>

theorem init_state_int_counter_overflow:
  "(0 :: size_t) < 1 \<and> (0 :: size_t) < 2147483649 \<and>
   init_state 1 2147483649 = Inl SignedOverflow"
  by (simp add: init_state_eq INT_MAX_def vector_max_size_def)

text \<open>
  C4. For every valid state and every call of \<open>make_turn\<close>: the call returns the message
  \<open>column_range_error\<close> exactly when the column is not below \<open>grid_width\<close> (a \<open>size_t\<close> is
  never negative); for a column in range it returns the message \<open>column_full_error\<close>
  exactly when no cell of the column is empty; and whenever a message is returned the state
  is the one before the call. The two messages are the literal strings of the source.
\<close>

theorem make_turn_errors:
  assumes "valid_state state"
  shows "\<exists>msg state'. make_turn state col_i player_id = Inr (msg, state') \<and>
     (msg = Some column_range_error \<longleftrightarrow> grid_width state \<le> col_i) \<and>
     (col_i < grid_width state \<longrightarrow>
        (msg = Some column_full_error \<longleftrightarrow>
           (\<forall>r<unat (grid_height state). cell_at state r (unat col_i) \<noteq> EMPTY_COLOR))) \<and>
     (msg \<noteq> None \<longrightarrow> state' = state) \<and>
     column_range_error = ''column index is outside of the grid range'' \<and>
     column_full_error =
       ''token cannot be placed in a given column as it'' @ [CHR 0x27] @
       ''s full or does not exist''"
proof (cases "grid_width state \<le> col_i")
  case True
  then have "\<not> col_i < grid_width state" by simp
  then show ?thesis
    using True
    by (simp add: make_turn_out_of_range column_range_error_def column_full_error_def)
next
  case False
  then have lt: "col_i < grid_width state" by simp
  show ?thesis
  proof (cases "lowest_empty_row state (unat col_i)")
    case None
    then have "\<forall>r<unat (grid_height state). cell_at state r (unat col_i) \<noteq> EMPTY_COLOR"
      by (simp add: lowest_empty_row_def lowest_empty_below_None)
    then show ?thesis
      using False None error_messages_differ
      by (simp add: make_turn_eq [OF assms lt] column_range_error_def column_full_error_def)
  next
    case (Some r)
    then have "r < unat (grid_height state)" "cell_at state r (unat col_i) = EMPTY_COLOR"
      by (simp_all add: lowest_empty_row_def lowest_empty_below_Some)
    then have "\<not> (\<forall>r<unat (grid_height state). cell_at state r (unat col_i) \<noteq> EMPTY_COLOR)"
      by blast
    then show ?thesis
      using False Some
      by (simp add: make_turn_eq [OF assms lt] column_range_error_def column_full_error_def)
  qed
qed

theorem make_turn_errors_witness:
  "valid_state small_state \<and>
   make_turn small_state 2 1 = Inr (Some column_range_error, small_state) \<and>
   (1 :: size_t) < grid_width small_state \<and>
   cell_at small_state 0 1 \<noteq> EMPTY_COLOR \<and> cell_at small_state 1 1 \<noteq> EMPTY_COLOR \<and>
   make_turn small_state 1 1 = Inr (Some column_full_error, small_state) \<and>
   (0 :: size_t) < grid_width small_state \<and> cell_at small_state 0 0 = EMPTY_COLOR \<and>
   make_turn small_state 0 2 =
     Inr (None, small_state\<lparr>grid := [[2, 1], [1, 2]],
                             history := history small_state @ [(0, 0, 2)]\<rparr>)"
  using small_state_valid make_turn_errors [OF small_state_valid, of 2 1]
    make_turn_errors [OF small_state_valid, of 1 1]
    make_turn_errors [OF small_state_valid, of 0 2]
  by (simp add: small_state_def model_defs cell_at_def)

text \<open>
  C5. For every valid state and every column in range, \<open>trace_row_coordinate\<close> returns the
  landing row of the specification: the largest row index whose cell in the column is
  empty, so that every cell below it in the column holds a token, and nothing when no cell
  of the column is empty. A successful \<open>make_turn\<close> changes the grid at exactly that row
  of the column.
\<close>

theorem gravity:
  assumes "valid_state state" and "col_i < grid_width state"
  shows "trace_row_coordinate state col_i =
           Inr (map_option of_nat (lowest_empty_row state (unat col_i))) \<and>
     (lowest_empty_row state (unat col_i) = None \<longleftrightarrow>
        (\<forall>r<unat (grid_height state). cell_at state r (unat col_i) \<noteq> EMPTY_COLOR)) \<and>
     (\<forall>r. lowest_empty_row state (unat col_i) = Some r \<longleftrightarrow>
        r < unat (grid_height state) \<and> cell_at state r (unat col_i) = EMPTY_COLOR \<and>
        (\<forall>r'. r < r' \<and> r' < unat (grid_height state) \<longrightarrow>
           cell_at state r' (unat col_i) \<noteq> EMPTY_COLOR)) \<and>
     (\<forall>row. trace_row_coordinate state col_i = Inr (Some row) \<longrightarrow>
        lowest_empty_row state (unat col_i) = Some (unat row)) \<and>
     (\<forall>player_id state'. make_turn state col_i player_id = Inr (None, state') \<longrightarrow>
        (\<exists>r. lowest_empty_row state (unat col_i) = Some r \<and>
           grid state' = (grid state)[r := (grid state ! r)[unat col_i := player_id]]))"
proof (intro conjI allI impI)
  show t: "trace_row_coordinate state col_i =
           Inr (map_option of_nat (lowest_empty_row state (unat col_i)))"
    using assms by (rule trace_row_coordinate_eq)
  show "lowest_empty_row state (unat col_i) = None \<longleftrightarrow>
        (\<forall>r<unat (grid_height state). cell_at state r (unat col_i) \<noteq> EMPTY_COLOR)"
    by (simp add: lowest_empty_row_def lowest_empty_below_None)
  show "lowest_empty_row state (unat col_i) = Some r \<longleftrightarrow>
        r < unat (grid_height state) \<and> cell_at state r (unat col_i) = EMPTY_COLOR \<and>
        (\<forall>r'. r < r' \<and> r' < unat (grid_height state) \<longrightarrow>
           cell_at state r' (unat col_i) \<noteq> EMPTY_COLOR)" for r
    by (simp add: lowest_empty_row_def lowest_empty_below_Some)
  show "lowest_empty_row state (unat col_i) = Some (unat row)"
    if tr: "trace_row_coordinate state col_i = Inr (Some row)" for row
  proof -
    obtain r where r: "lowest_empty_row state (unat col_i) = Some r" and row: "row = of_nat r"
      using tr t by auto
    have "unat row = r"
      unfolding row using lowest_empty_row_bound [OF r] by (rule unat_of_nat_row)
    then show ?thesis using r by simp
  qed
  show "\<exists>r. lowest_empty_row state (unat col_i) = Some r \<and>
           grid state' = (grid state)[r := (grid state ! r)[unat col_i := player_id]]"
    if "make_turn state col_i player_id = Inr (None, state')" for player_id state'
    using that by (auto simp: make_turn_eq [OF assms] split: option.splits)
qed

theorem gravity_witness:
  "valid_state small_state \<and> (0 :: size_t) < grid_width small_state \<and>
   trace_row_coordinate small_state 0 = Inr (Some 0) \<and>
   lowest_empty_row small_state (unat (0 :: size_t)) = Some 0 \<and>
   cell_at small_state 0 0 = EMPTY_COLOR \<and> cell_at small_state 1 0 \<noteq> EMPTY_COLOR \<and>
   (1 :: size_t) < grid_width small_state \<and>
   trace_row_coordinate small_state 1 = Inr None \<and>
   lowest_empty_row small_state (unat (1 :: size_t)) = None"
proof -
  have c0: "(0 :: size_t) < grid_width small_state" and c1: "(1 :: size_t) < grid_width small_state"
    by (simp_all add: small_state_def)
  have "lowest_empty_row small_state (unat (0 :: size_t)) = Some 0"
    and "lowest_empty_row small_state (unat (1 :: size_t)) = None"
    by (simp_all add: small_state_def lowest_empty_row_def lowest_empty_below_def cell_at_def
        EMPTY_COLOR_def upt_rec)
  then show ?thesis
    using small_state_valid c0 c1 gravity [OF small_state_valid c0] gravity [OF small_state_valid c1]
    by (simp add: small_state_def cell_at_def EMPTY_COLOR_def)
qed

text \<open>
  C6. Claim: a successful \<open>make_turn(state, col, playerId)\<close> appends exactly the triple
  (row, col, playerId) to the history. The code fails this for columns above \<open>INT_MAX\<close>:
  the history keeps its coordinates in \<open>int\<close>, and \<open>emplace_back\<close> narrows the
  \<open>size_t\<close> column. On the board of one row and 2147483650 columns a turn of player 1 on
  column 2147483649 succeeds and sets that cell, but the entry appended is
  (0, -2147483647, 1); \<open>is_terminal\<close>, which reads the cell back through the entry, then
  indexes outside the row.
\<close>

theorem make_turn_narrows_column:
  "init_state 2147483650 1 = Inr (Some giant_board) \<and>
   make_turn giant_board 2147483649 1 = Inr (None, giant_state) \<and>
   cell_at giant_state 0 2147483649 = 1 \<and>
   last (history giant_state) = (0, - 2147483647, 1) \<and>
   sint (- 2147483647 :: c_int) = - 2147483647 \<and>
   uint (2147483649 :: size_t) = 2147483649 \<and>
   is_terminal giant_state = Inl OutOfBounds"
  by (simp add: init_state_eq vector_max_size_def giant_board_def giant_state_def cell_at_def
      model_defs)

text \<open>
  C7. Claim: for every state whose last history entry has in-bounds coordinates, every
  grid access of \<open>is_terminal\<close> is in bounds. The code fails this on a wide board: the
  conversion \<open>int(token_col + line_offset)\<close> wraps around when the sum exceeds \<open>INT_MAX\<close>,
  and \<open>std::min\<close> then keeps the negative value. On the board of one row and 2147483646
  columns, after a token of player 1 in column 2147483645, the entry (0, 2147483645, 1) is
  in bounds, the first three scans end without a winner, and the second diagonal scan
  starts at column -2147483648 and reads outside the row.
\<close>

theorem is_terminal_wide_out_of_bounds:
  "init_state 2147483646 1 = Inr (Some wide_board) \<and>
   make_turn wide_board 2147483645 1 = Inr (None, wide_state) \<and>
   history wide_state \<noteq> [] \<and> last (history wide_state) = (0, 2147483645, 1) \<and>
   in_grid wide_state 0 2147483645 \<and>
   is_terminal wide_state = Inl OutOfBounds"
  by (simp add: init_state_eq vector_max_size_def wide_board_def wide_state_def in_grid_def model_defs)

text \<open>
  C8. Claim: the history never has more entries than the grid has cells, whatever the
  columns and player ids of the calls. A turn of player id 0 writes the empty marker, so
  the cell stays free: on the board of one cell, two such turns both succeed and leave two
  history entries.
\<close>

theorem history_bound_counterexample:
  "init_state 1 1 = Inr (Some single_cell) \<and>
   run_calls single_cell [(0, EMPTY_COLOR), (0, EMPTY_COLOR)] = Inr single_cell_twice \<and>
   \<not> length (history single_cell_twice)
        \<le> unat (grid_width single_cell_twice) * unat (grid_height single_cell_twice)"
  by (simp add: init_state_eq vector_max_size_def single_cell_def single_cell_twice_def model_defs)

text \<open>
  C8, amended: the history has at most \<open>grid_width * grid_height\<close> entries in the initial
  state and after every sequence of \<open>make_turn\<close> calls, successful or failed, with arbitrary
  columns and arbitrary player ids other than the empty marker 0.
\<close>

theorem history_bound:
  assumes "init_state width height = Inr (Some state0)"
    and "list_all (\<lambda>call. snd call \<noteq> EMPTY_COLOR) calls"
  shows "length (history state0) \<le> unat width * unat height \<and>
    (\<exists>state. run_calls state0 calls = Inr state \<and>
       grid_width state = width \<and> grid_height state = height \<and>
       length (history state) \<le> unat width * unat height)"
proof -
  have c0: "counted state0" and d0: "grid_width state0 = width" "grid_height state0 = height"
    using init_state_counted [OF assms(1)] by simp_all
  obtain state where run: "run_calls state0 calls = Inr state" and c: "counted state"
    and d: "grid_width state = grid_width state0" "grid_height state = grid_height state0"
    using run_calls_counted [OF c0 assms(2)] by auto
  have "length (history state0) \<le> unat width * unat height"
    using c0 occupied_le [of state0] d0 by (simp add: counted_def)
  moreover have "length (history state) \<le> unat width * unat height"
    using c occupied_le [of state] d d0 by (simp add: counted_def)
  ultimately show ?thesis
    using run d d0 by simp
qed

theorem history_bound_witness:
  "init_state 10 10 = Inr (Some board_10) \<and>
   list_all (\<lambda>call. snd call \<noteq> EMPTY_COLOR) missed_calls \<and>
   run_calls board_10 missed_calls = Inr missed_state \<and>
   length (history missed_state) \<le> unat (10 :: size_t) * unat (10 :: size_t)"
proof -
  have l: "list_all (\<lambda>call. snd call \<noteq> EMPTY_COLOR) missed_calls"
    by (simp add: missed_calls_def EMPTY_COLOR_def)
  show ?thesis
    using init_state_10 l run_missed_calls history_bound [OF init_state_10 l]
    by simp
qed

text \<open>
  C9. Claim: for every state with a valid column \<open>c\<close> that is not full,
  \<open>make_turn(state, c, 0)\<close> succeeds, leaves the occupied cells as they are and appends
  (row, c, 0) to the history. The code does accept player id 0 and does leave the grid
  unchanged, but the entry it appends has the column narrowed to \<open>int\<close>: on the board of
  one row and 2147483650 columns the turn on column 2147483649 appends (0, -2147483647, 0).
\<close>

theorem empty_color_turn_narrows_column:
  "valid_state giant_board \<and> (2147483649 :: size_t) < grid_width giant_board \<and>
   cell_at giant_board 0 2147483649 = EMPTY_COLOR \<and>
   make_turn giant_board 2147483649 EMPTY_COLOR = Inr (None, giant_empty_turn) \<and>
   grid giant_empty_turn = grid giant_board \<and>
   last (history giant_empty_turn) = (0, - 2147483647, EMPTY_COLOR) \<and>
   sint (- 2147483647 :: c_int) = - 2147483647 \<and>
   uint (2147483649 :: size_t) = 2147483649"
proof -
  have c: "(2147483649 :: size_t) < grid_width giant_board"
    by (simp add: giant_board_def)
  have "make_turn giant_board 2147483649 EMPTY_COLOR = Inr (None, giant_empty_turn)"
    using make_turn_empty_color [OF giant_board_valid c giant_board_lowest_empty]
    by (simp add: giant_board_def giant_empty_turn_def to_int_def)
  then show ?thesis
    using giant_board_valid c
    by (simp add: giant_board_def giant_empty_turn_def cell_at_def)
qed

text \<open>
  C10. Claim: the four call sites of \<open>check_line\<close> in \<open>is_terminal\<close> start on the grid
  whenever the last history entry has in-bounds coordinates, so that the unchecked first
  read of \<open>check_line\<close> is safe. The code fails this on a wide board, by the wrap-around
  of \<open>int(token_col + line_offset)\<close>: on the board of one row and 2147483646 columns, for
  the in-bounds entry (0, 2147483645, 1), the start column of the second diagonal scan is
  -2147483648, and the first read of \<open>check_line\<close> is out of bounds.
\<close>

theorem clamping_wide_out_of_grid:
  "valid_state wide_state \<and> last (history wide_state) = (0, 2147483645, 1) \<and>
   in_grid wide_state 0 2147483645 \<and>
   back_off 0 = 0 \<and> forward_off wide_state 2147483645 = - 2147483648 \<and>
   \<not> in_grid wide_state (back_off 0) (forward_off wide_state 2147483645) \<and>
   check_line wide_state (back_off 0) (forward_off wide_state 2147483645) 1 (- 1) line_steps 1
     = Inl OutOfBounds"
  using wide_state_valid
  by (simp add: wide_state_def in_grid_def model_defs)

end
